theory Spec2Isabelle
  imports Complex_Main "HOL-Library.Log_Nat"
begin

section \<open>Data model\<close>

text \<open>
  The persisted collections of the lottery backend (the Mongoose schemas under
  \<^verbatim>\<open>models/\<close>) as records, and the database as a record of collections.
  Object ids and UUIDs are natural numbers. Dates are integers (milliseconds).
  Money is a \<^verbatim>\<open>Decimal128\<close> in the store, an exact decimal, and a JavaScript number
  in the services. Both are rationals in the model: a stored decimal is its value, and
  a JavaScript number is the value of the double, the rounding to a double being
  written out wherever the source reads a decimal into a number or computes with
  numbers, and the rounding of \<^verbatim>\<open>toFixed(2)\<close> wherever the source writes a number
  back as a decimal.
\<close>

type_synonym uid = nat
type_synonym lid = nat

datatype role = RUser | RAdmin

record user =
  name :: string
  email :: string
  role :: role
  walletBalance :: rat

datatype txType = Credit | Debit

record transaction =
  tx_user :: uid
  amount :: rat
  tx_type :: txType
  description :: string
  balanceAfter :: rat

record winnerStructure =
  fromRank :: int
  toRank :: int
  prizeAmount :: rat

record flags =
  isUpcoming :: bool
  isActive :: bool
  isEnded :: bool
  resultAnnounced :: bool

record lottery =
  l_id :: lid
  title :: string
  ticketPrice :: rat
  maxTickets :: int
  maxTicketsPerUser :: int
  winnerStructure :: "winnerStructure list"
  startDatetime :: int
  endDatetime :: int
  drawDatetime :: int
  ticketsSold :: int
  flags :: flags
  lotteryPrefix :: string

record ticketPurchase =
  tp_lotteryId :: lid
  tp_userId :: uid
  ticketNumbers :: "string list"
  quantity :: int
  perTicketPrice :: rat
  totalPrice :: rat

record winner =
  rank :: int
  rankRange :: string
  w_userId :: uid
  w_ticketNumber :: string
  w_prizeAmount :: rat
  w_name :: string
  w_email :: string

text \<open>A winner as the result document stores it: the schema has no field for the rank.\<close>

record savedWinner =
  sw_rankRange :: string
  sw_userId :: uid
  sw_ticketNumber :: string
  sw_prizeAmount :: rat
  sw_name :: string
  sw_email :: string

record lotteryResult =
  r_lotteryId :: lid
  r_winners :: "savedWinner list"

record db =
  users :: "uid \<rightharpoonup> user"
  transactions :: "transaction list"
  lotteries :: "lottery list"
  purchases :: "ticketPurchase list"
  results :: "lotteryResult list"

datatype error =
    InvalidAmount
  | UserNotFound
  | OnlyUsersHaveWallets
  | InsufficientFunds
  | InvalidQuantity
  | LotteryNotFound
  | LotteryNotActive
  | PerUserLimitExceeded
  | TicketUnavailable "string list"
  | QuantityMismatch
  | NotEnoughTickets
  | ResultAlreadyAnnounced
  | DrawTimeNotReached
  | LotteryNotEnded
  | NoTicketsSold
  | TypeError

section \<open>JavaScript numbers\<close>

text \<open>
  A JavaScript number is an IEEE 754 double: a multiple \<open>m * 2 ^ e\<close> of a power of two
  with an integer \<open>m\<close> of at most 53 bits. \<^verbatim>\<open>parseFloat\<close> and \<^verbatim>\<open>Number\<close> of a decimal
  string, and the operators \<^verbatim>\<open>+\<close>, \<^verbatim>\<open>-\<close> and \<^verbatim>\<open>*\<close>, give the double nearest to the
  exact value, a tie going to the even \<open>m\<close>. That rounding is \<open>toDouble\<close>:
  \<open>ilog2 x\<close> is the binary exponent of \<open>x\<close> (the \<open>k\<close> with
  \<open>2 ^ k \<le> \<bar>x\<bar> < 2 ^ (k + 1)\<close>), so that \<open>x / 2 ^ (ilog2 x - 52)\<close> lies between
  \<open>2 ^ 52\<close> and \<open>2 ^ 53\<close> and is rounded to an integer. The range of the exponent
  is not bounded: overflow to infinity and the subnormal numbers, both far from any
  amount of money, are not modelled.
\<close>

definition roundEven :: "rat \<Rightarrow> int" where
  "roundEven x =
     (let f = \<lfloor>x\<rfloor>; r = x - of_int f
      in if r < 1 / 2 then f else if 1 / 2 < r then f + 1 else if even f then f else f + 1)"

definition ilog2 :: "rat \<Rightarrow> int" where
  "ilog2 x =
     (let (p, q) = quotient_of \<bar>x\<bar>;
          k = int (floorlog 2 (nat p)) - int (floorlog 2 (nat q))
      in if 2 powi k \<le> \<bar>x\<bar> then k else k - 1)"

definition toDouble :: "rat \<Rightarrow> rat" where
  "toDouble x =
     (if x = 0 then 0
      else let e = ilog2 x - 52 in of_int (roundEven (x / 2 powi e)) * 2 powi e)"

section \<open>Wallet service\<close>

text \<open>
  The amount argument of \<^verbatim>\<open>updateWallet\<close> is a JavaScript number, as both callers
  (the purchase route and the draw service) pass it: a finite value or \<^verbatim>\<open>NaN\<close>.
  \<open>Num a\<close> is the number whose value is \<open>a\<close>.
\<close>

datatype jsnum = Num rat | NaN

text \<open>
  \<^verbatim>\<open>x.toFixed(2)\<close> followed by \<^verbatim>\<open>Decimal128.fromString\<close>: the multiple of 0.01
  nearest to the exact value of the number \<open>x\<close>, a tie going to the larger magnitude
  (the sign is split off first). Above \<open>10 ^ 21\<close>, where \<^verbatim>\<open>toFixed\<close> gives the
  exponent notation, the model is not meant.
\<close>

definition toFixed2 :: "rat \<Rightarrow> rat" where
  "toFixed2 x =
     (if x < 0 then - (of_int \<lfloor>- x * 100 + 1 / 2\<rfloor> / 100)
      else of_int \<lfloor>x * 100 + 1 / 2\<rfloor> / 100)"

text \<open>
  \<^verbatim>\<open>updateWallet(userId, amount, description, session)\<close>. The guard on the amount
  comes before the account is read; every throw comes before the first write, so a
  failure returns the database it was given. The stored balance is read into a number
  (\<^verbatim>\<open>parseFloat(user.walletBalance.toString())\<close>), the amount is a number already
  (\<^verbatim>\<open>parseFloat\<close> of a number gives it back), and their sum is the sum of two numbers.
  The returned balance is the unrounded \<^verbatim>\<open>newBalance\<close>.
\<close>

definition updateWallet :: "uid \<Rightarrow> jsnum \<Rightarrow> string \<Rightarrow> db \<Rightarrow> (error + rat) \<times> db" where
  "updateWallet userId amt descr d =
     (case amt of
        NaN \<Rightarrow> (Inl InvalidAmount, d)
      | Num a \<Rightarrow>
          if a = 0 then (Inl InvalidAmount, d)
          else
            (case users d userId of
               None \<Rightarrow> (Inl UserNotFound, d)
             | Some u \<Rightarrow>
                 if role u \<noteq> RUser then (Inl OnlyUsersHaveWallets, d)
                 else
                   let currentBalance = toDouble (walletBalance u);
                       change = a;
                       newBalance = toDouble (currentBalance + change)
                   in if newBalance < 0 then (Inl InsufficientFunds, d)
                      else
                        (Inr newBalance,
                         d\<lparr>users := (users d)(userId \<mapsto> u\<lparr>walletBalance := toFixed2 newBalance\<rparr>),
                           transactions := transactions d @
                             [\<lparr>tx_user = userId,
                               amount = toFixed2 \<bar>change\<bar>,
                               tx_type = (if change \<ge> 0 then Credit else Debit),
                               description = descr,
                               balanceAfter = toFixed2 newBalance\<rparr>]\<rparr>)))"

text \<open>The two directions of the wallet ledger, by the sign of the amount.\<close>

definition walletDebit :: "uid \<Rightarrow> rat \<Rightarrow> string \<Rightarrow> db \<Rightarrow> (error + rat) \<times> db" where
  "walletDebit userId a descr d = updateWallet userId (Num (- a)) descr d"

definition walletCredit :: "uid \<Rightarrow> rat \<Rightarrow> string \<Rightarrow> db \<Rightarrow> (error + rat) \<times> db" where
  "walletCredit userId a descr d = updateWallet userId (Num a) descr d"

text \<open>An amount in whole hundredths: one that \<^verbatim>\<open>toFixed(2)\<close> leaves as it is.\<close>

definition wholeCents :: "rat \<Rightarrow> bool" where
  "wholeCents x = (toFixed2 x = x)"

text \<open>
  The document \<^verbatim>\<open>new User({ name, email, passwordHash })\<close> of the register route:
  the schema gives it the role \<^verbatim>\<open>user\<close> and the wallet balance 10000.00. No
  transaction is written for this opening balance.
\<close>

definition newUser :: "string \<Rightarrow> string \<Rightarrow> user" where
  "newUser nm em = \<lparr>name = nm, email = em, role = RUser, walletBalance = 10000\<rparr>"




text \<open>A sequence of wallet operations; a failed one leaves the database as it was.\<close>

fun walletOps :: "(uid \<times> jsnum \<times> string) list \<Rightarrow> db \<Rightarrow> db" where
  "walletOps [] d = d"
| "walletOps ((userId, amt, descr) # ops) d =
     walletOps ops (snd (updateWallet userId amt descr d))"




text \<open>
  A bound on amounts of money under which the rounding of a number stays well below
  half a hundredth: a million millions.
\<close>

definition moneyLimit :: rat where
  "moneyLimit = 1000000000000"

section \<open>Collections\<close>

text \<open>
  \<^verbatim>\<open>Model.updateOne(filter, change)\<close> and a document's \<^verbatim>\<open>save()\<close> change the first
  document the filter (or the document's id) selects; \<^verbatim>\<open>updateMany\<close> changes all.
\<close>

fun updateOne :: "('a \<Rightarrow> bool) \<Rightarrow> ('a \<Rightarrow> 'a) \<Rightarrow> 'a list \<Rightarrow> 'a list" where
  "updateOne P f [] = []"
| "updateOne P f (x # xs) = (if P x then f x # xs else x # updateOne P f xs)"


definition findLottery :: "lid \<Rightarrow> db \<Rightarrow> lottery option" where
  "findLottery lotteryId d = find (\<lambda>l. l_id l = lotteryId) (lotteries d)"

section \<open>Lifecycle flags computed from the clock\<close>

record computedFlags =
  cf_isActive :: bool
  cf_isEnded :: bool
  cf_resultAnnounced :: bool

text \<open>\<^verbatim>\<open>computeLotteryFlags(lottery)\<close>, the clock \<^verbatim>\<open>new Date()\<close> being the argument \<open>now\<close>.\<close>

definition computeLotteryFlags :: "int \<Rightarrow> lottery \<Rightarrow> computedFlags" where
  "computeLotteryFlags now lottery =
     (let sold = ticketsSold lottery;
          hasStarted = (now \<ge> startDatetime lottery \<or> sold \<ge> maxTickets lottery);
          hasEnded = (now \<ge> endDatetime lottery \<or> sold \<ge> maxTickets lottery);
          resultReady = (now \<ge> drawDatetime lottery)
      in \<lparr>cf_isActive = hasStarted, cf_isEnded = hasEnded, cf_resultAnnounced = resultReady\<rparr>)"

section \<open>Ticket purchase\<close>

text \<open>\<^verbatim>\<open>String(n)\<close> for a non-negative integer, and for any integer.\<close>

fun digitsOf :: "nat \<Rightarrow> string" where
  "digitsOf n =
     (if n < 10 then [''0123456789'' ! n]
      else digitsOf (n div 10) @ [''0123456789'' ! (n mod 10)])"

definition showInt :: "int \<Rightarrow> string" where
  "showInt i = (if i < 0 then ''-'' @ digitsOf (nat (- i)) else digitsOf (nat i))"

definition padStart :: "nat \<Rightarrow> char \<Rightarrow> string \<Rightarrow> string" where
  "padStart n c s = replicate (n - length s) c @ s"

text \<open>The ticket number of index \<open>i\<close>: the prefix, a dash, and at least four digits.\<close>

definition ticketNum :: "string \<Rightarrow> int \<Rightarrow> string" where
  "ticketNum pre i = pre @ ''-'' @ padStart 4 (CHR ''0'') (showInt i)"

definition startsWith :: "string \<Rightarrow> string \<Rightarrow> bool" where
  "startsWith t pre = (take (length pre) t = pre)"

definition soldTickets :: "lid \<Rightarrow> db \<Rightarrow> string list" where
  "soldTickets lotteryId d =
     concat (map ticketNumbers (filter (\<lambda>p. tp_lotteryId p = lotteryId) (purchases d)))"

definition availableTickets :: "lottery \<Rightarrow> db \<Rightarrow> string list" where
  "availableTickets lottery d =
     filter (\<lambda>ticketNum'. ticketNum' \<notin> set (soldTickets (l_id lottery) d))
       (map (ticketNum (lotteryPrefix lottery)) [1..maxTickets lottery])"

text \<open>The tickets to buy: the chosen ones when there are any, else the first free ones.\<close>

definition chooseTickets :: "lottery \<Rightarrow> string list \<Rightarrow> int \<Rightarrow> string list \<Rightarrow> error + string list" where
  "chooseTickets lottery available qty chosenTickets =
     (if chosenTickets \<noteq> [] then
        let expectedPrefix = lotteryPrefix lottery @ ''-'';
            invalid = filter (\<lambda>t. \<not> startsWith t expectedPrefix \<or> t \<notin> set available) chosenTickets
        in if invalid \<noteq> [] then Inl (TicketUnavailable invalid)
           else if int (length chosenTickets) \<noteq> qty then Inl QuantityMismatch
           else Inr chosenTickets
      else if int (length available) < qty then Inl NotEnoughTickets
      else Inr (take (nat qty) available))"

text \<open>
  The checks of \<^verbatim>\<open>POST /lottery/:id/purchase\<close> up to the wallet debit. They read
  and write nothing; the result is the lottery, the buyer's existing purchase record if
  any, and the tickets to buy. (The id is a well-formed UUID and the ticket price a
  number; the two checks for that are not modelled.)
\<close>

definition purchaseChecks ::
  "int \<Rightarrow> lid \<Rightarrow> uid \<Rightarrow> int \<Rightarrow> string list \<Rightarrow> db
     \<Rightarrow> error + (lottery \<times> ticketPurchase option \<times> string list)" where
  "purchaseChecks now lotteryId userId qty chosenTickets d =
     (if qty \<le> 0 then Inl InvalidQuantity
      else
        (case findLottery lotteryId d of
           None \<Rightarrow> Inl LotteryNotFound
         | Some lottery \<Rightarrow>
             let fl = computeLotteryFlags now lottery
             in if \<not> cf_isActive fl \<or> cf_isEnded fl then Inl LotteryNotActive
                else
                  let available = availableTickets lottery d;
                      existingPurchase =
                        find (\<lambda>p. tp_lotteryId p = l_id lottery \<and> tp_userId p = userId) (purchases d);
                      existingQty = (case existingPurchase of None \<Rightarrow> 0 | Some p \<Rightarrow> quantity p)
                  in if existingQty + qty > maxTicketsPerUser lottery then Inl PerUserLimitExceeded
                     else
                       (case chooseTickets lottery available qty chosenTickets of
                          Inl e \<Rightarrow> Inl e
                        | Inr ticketsToBuy \<Rightarrow> Inr (lottery, existingPurchase, ticketsToBuy))))"

text \<open>
  \<^verbatim>\<open>ticketPrice * qty\<close>, where \<^verbatim>\<open>ticketPrice\<close> is
  \<^verbatim>\<open>Number(lottery.ticketPrice.toString())\<close>: a product of two numbers. The quantity
  is an integer, which a number holds exactly (below \<open>2 ^ 53\<close>).
\<close>

definition totalCost :: "lottery \<Rightarrow> int \<Rightarrow> rat" where
  "totalCost lottery qty = toDouble (toDouble (ticketPrice lottery) * of_int qty)"

text \<open>
  The writes after a successful debit: the buyer's purchase record is extended or
  created, and \<^verbatim>\<open>ticketsSold\<close> grows by the quantity. The two prices of a purchase
  record are numbers.
\<close>

definition recordPurchase ::
  "lottery \<Rightarrow> ticketPurchase option \<Rightarrow> uid \<Rightarrow> int \<Rightarrow> string list \<Rightarrow> db \<Rightarrow> db" where
  "recordPurchase lottery existingPurchase userId qty ticketsToBuy d =
     (let ticketPrice' = toDouble (ticketPrice lottery);
          totalCost' = totalCost lottery qty;
          d1 = (case existingPurchase of
                  Some p \<Rightarrow>
                    d\<lparr>purchases :=
                        updateOne (\<lambda>q. tp_lotteryId q = l_id lottery \<and> tp_userId q = userId)
                          (\<lambda>q. p\<lparr>ticketNumbers := ticketNumbers p @ ticketsToBuy,
                                quantity := quantity p + qty,
                                totalPrice := toDouble (totalPrice p + totalCost'),
                                perTicketPrice := ticketPrice'\<rparr>)
                          (purchases d)\<rparr>
                | None \<Rightarrow>
                    d\<lparr>purchases := purchases d @
                        [\<lparr>tp_lotteryId = l_id lottery, tp_userId = userId,
                          ticketNumbers = ticketsToBuy, quantity = qty,
                          perTicketPrice = ticketPrice', totalPrice = totalCost'\<rparr>]\<rparr>)
      in d1\<lparr>lotteries :=
            updateOne (\<lambda>l. l_id l = l_id lottery)
              (\<lambda>l. lottery\<lparr>ticketsSold := ticketsSold lottery + qty\<rparr>) (lotteries d1)\<rparr>)"

text \<open>
  \<^verbatim>\<open>POST /lottery/:id/purchase\<close>. The debit and the writes are one transaction: when
  \<^verbatim>\<open>updateWallet\<close> throws, the transaction is aborted and the database is the one
  the request found.
\<close>

definition purchase ::
  "int \<Rightarrow> lid \<Rightarrow> uid \<Rightarrow> int \<Rightarrow> string list \<Rightarrow> db \<Rightarrow> (error + string list) \<times> db" where
  "purchase now lotteryId userId qty chosenTickets d =
     (case purchaseChecks now lotteryId userId qty chosenTickets d of
        Inl e \<Rightarrow> (Inl e, d)
      | Inr (lottery, existingPurchase, ticketsToBuy) \<Rightarrow>
          (case updateWallet userId (Num (- totalCost lottery qty))
                     (''Purchase '' @ showInt qty @ '' ticket(s) for '' @ title lottery) d of
             (Inl e, _) \<Rightarrow> (Inl e, d)
           | (Inr _, d1) \<Rightarrow>
               (Inr ticketsToBuy,
                recordPurchase lottery existingPurchase userId qty ticketsToBuy d1)))"

section \<open>Draw service\<close>

record ticket =
  ticketNumber :: string
  t_userId :: uid
  t_name :: string
  t_email :: string

text \<open>
  Every sold ticket of the purchase records, with its buyer. The buyer is read inside
  the loop over the ticket numbers, so a record whose buyer is gone throws only when it
  has a ticket number.
\<close>

fun expandPurchases :: "(uid \<rightharpoonup> user) \<Rightarrow> ticketPurchase list \<Rightarrow> error + ticket list" where
  "expandPurchases us [] = Inr []"
| "expandPurchases us (p # ps) =
     (case (if ticketNumbers p = [] then Inr []
            else (case us (tp_userId p) of
                    None \<Rightarrow> Inl TypeError
                  | Some u \<Rightarrow>
                      Inr (map (\<lambda>num. \<lparr>ticketNumber = num, t_userId = tp_userId p,
                                 t_name = (if name u = [] then ''Unknown'' else name u),
                                 t_email = (if email u = [] then ''N/A'' else email u)\<rparr>)
                             (ticketNumbers p)))) of
        Inl e \<Rightarrow> Inl e
      | Inr ts \<Rightarrow>
          (case expandPurchases us ps of
             Inl e \<Rightarrow> Inl e
           | Inr rest \<Rightarrow> Inr (ts @ rest)))"

definition mkWinner :: "int \<Rightarrow> winnerStructure \<Rightarrow> ticket \<Rightarrow> winner" where
  "mkWinner rankCounter ws winnerTicket =
     \<lparr>rank = rankCounter,
      rankRange = showInt (fromRank ws) @ ''-'' @ showInt (toRank ws),
      w_userId = t_userId winnerTicket,
      w_ticketNumber = ticketNumber winnerTicket,
      w_prizeAmount = prizeAmount ws,
      w_name = t_name winnerTicket,
      w_email = t_email winnerTicket\<rparr>"

definition saveWinner :: "winner \<Rightarrow> savedWinner" where
  "saveWinner w =
     \<lparr>sw_rankRange = rankRange w, sw_userId = w_userId w, sw_ticketNumber = w_ticketNumber w,
      sw_prizeAmount = w_prizeAmount w, sw_name = w_name w, sw_email = w_email w\<rparr>"

text \<open>
  The state of the two winner loops: the winners so far, \<^verbatim>\<open>currentIndex\<close>,
  \<^verbatim>\<open>rankCounter\<close> and the database. The inner loop runs \<open>n\<close> more times at most
  (\<open>n\<close> starts as the group size) and stops when the tickets run out; a credit that
  throws ends the draw. The winner keeps the band's prize as the decimal it is; the
  amount credited is the number \<^verbatim>\<open>Number(ws.prizeAmount.toString())\<close>.
\<close>

type_synonym drawState = "winner list \<times> nat \<times> int \<times> db"

fun awardGroup :: "string \<Rightarrow> winnerStructure \<Rightarrow> ticket list \<Rightarrow> nat \<Rightarrow> drawState \<Rightarrow> error + drawState" where
  "awardGroup ttl ws shuffled 0 st = Inr st"
| "awardGroup ttl ws shuffled (Suc n) (winners, currentIndex, rankCounter, d) =
     (if currentIndex < length shuffled then
        let winnerTicket = shuffled ! currentIndex
        in (case updateWallet (t_userId winnerTicket) (Num (toDouble (prizeAmount ws)))
                   (''Prize for lottery '' @ ttl @ '' (Ticket '' @ ticketNumber winnerTicket @ '')'') d of
              (Inl e, _) \<Rightarrow> Inl e
            | (Inr _, d') \<Rightarrow>
                awardGroup ttl ws shuffled n
                  (winners @ [mkWinner rankCounter ws winnerTicket], Suc currentIndex, rankCounter + 1, d'))
      else Inr (winners, currentIndex, rankCounter, d))"

fun pickWinners :: "string \<Rightarrow> winnerStructure list \<Rightarrow> ticket list \<Rightarrow> drawState \<Rightarrow> error + drawState" where
  "pickWinners ttl [] shuffled st = Inr st"
| "pickWinners ttl (ws # rest) shuffled st =
     (let groupSize = toRank ws - fromRank ws + 1
      in (case awardGroup ttl ws shuffled (nat groupSize) st of
            Inl e \<Rightarrow> Inl e
          | Inr st' \<Rightarrow> pickWinners ttl rest shuffled st'))"

text \<open>
  \<^verbatim>\<open>drawLottery(lotteryId, session, force)\<close>. The clock is the argument \<open>now\<close>; the
  result of \<^verbatim>\<open>allTickets.sort(() => Math.random() - 0.5)\<close> on this run is
  \<open>shuffle allTickets\<close>. All writes are one transaction: on a throw the database is
  the one the call found.
\<close>

definition drawLottery ::
  "lid \<Rightarrow> bool \<Rightarrow> int \<Rightarrow> (ticket list \<Rightarrow> ticket list) \<Rightarrow> db \<Rightarrow> (error + winner list) \<times> db" where
  "drawLottery lotteryId force now shuffle d =
     (case findLottery lotteryId d of
        None \<Rightarrow> (Inl LotteryNotFound, d)
      | Some lottery \<Rightarrow>
          if resultAnnounced (flags lottery) then (Inl ResultAlreadyAnnounced, d)
          else
            let endedByTime = (now \<ge> endDatetime lottery);
                endedByTickets = (isEnded (flags lottery) \<and> ticketsSold lottery \<ge> maxTickets lottery);
                reachedDrawTime = (now \<ge> drawDatetime lottery)
            in if \<not> force \<and> \<not> reachedDrawTime then (Inl DrawTimeNotReached, d)
               else if \<not> endedByTime \<and> \<not> endedByTickets \<and> \<not> force then (Inl LotteryNotEnded, d)
               else
                 (case expandPurchases (users d)
                         (filter (\<lambda>p. tp_lotteryId p = lotteryId) (purchases d)) of
                    Inl e \<Rightarrow> (Inl e, d)
                  | Inr allTickets \<Rightarrow>
                      if allTickets = [] then (Inl NoTicketsSold, d)
                      else
                        let shuffled = shuffle allTickets
                        in (case pickWinners (title lottery) (winnerStructure lottery) shuffled
                                   ([], 0, 1, d) of
                              Inl e \<Rightarrow> (Inl e, d)
                            | Inr (winners, currentIndex, rankCounter, d1) \<Rightarrow>
                                (Inr winners,
                                 d1\<lparr>results := results d1 @
                                       [\<lparr>r_lotteryId = lotteryId, r_winners = map saveWinner winners\<rparr>],
                                    lotteries :=
                                      updateOne (\<lambda>l. l_id l = l_id lottery)
                                        (\<lambda>l. lottery\<lparr>flags := (flags lottery)\<lparr>resultAnnounced := True\<rparr>\<rparr>)
                                        (lotteries d1)\<rparr>))))"

text \<open>
  The winners the spec describes: the shuffled list consumed from its head in bands,
  one slot per rank of each range in the order declared, ranks counted from 1.
\<close>

definition bandSlots :: "winnerStructure list \<Rightarrow> winnerStructure list" where
  "bandSlots wsl = concat (map (\<lambda>ws. replicate (nat (toRank ws - fromRank ws + 1)) ws) wsl)"


section \<open>Lifecycle sweep\<close>




definition announce :: "lid \<Rightarrow> db \<Rightarrow> db" where
  "announce lotteryId d =
     d\<lparr>lotteries := updateOne (\<lambda>l. l_id l = lotteryId)
          (\<lambda>l. l\<lparr>flags := (flags l)\<lparr>resultAnnounced := True\<rparr>\<rparr>) (lotteries d)\<rparr>"

text \<open>
  The body of the auto-draw loop for one lottery: with no ticket sold the result is
  marked announced without a draw; otherwise the lottery is drawn (not forced, in a
  transaction of its own) and marked announced; a draw that throws is logged and the
  lottery left for the next tick. The draw reads the clock again; the model gives it
  the time of the tick.
\<close>

definition autoDraw :: "int \<Rightarrow> (ticket list \<Rightarrow> ticket list) \<Rightarrow> lottery \<Rightarrow> db \<Rightarrow> db" where
  "autoDraw now shuffle lottery d =
     (if ticketsSold lottery = 0 then announce (l_id lottery) d
      else (case drawLottery (l_id lottery) False now shuffle d of
              (Inl e, _) \<Rightarrow> d
            | (Inr winners, d1) \<Rightarrow> announce (l_id lottery) d1))"



section \<open>The shuffle\<close>

text \<open>
  \<^verbatim>\<open>allTickets.sort(() => Math.random() - 0.5)\<close>: the comparator ignores the two
  tickets it is given and returns a random number, of which the sort sees the sign.
\<close>

datatype sign = Negative | Zero | Positive

text \<open>
  The sort procedure is the JavaScript engine's, not the repository's, so it is a
  parameter: on a given list, a deterministic procedure that only compares is a decision
  tree, which at each comparison goes one of three ways with the sign the comparator
  returned, and ends with the list it gives back.
\<close>

datatype 'a sorter = Done "'a list" | Compare "'a sorter" "'a sorter" "'a sorter"

text \<open>
  One run, on the comparator results \<open>rnd 0\<close>, \<open>rnd 1\<close>, ... In a run of
  \<open>drawLottery\<close> the argument \<open>shuffle\<close> is \<open>randomSort engine rnd\<close>.
\<close>

fun runSorter :: "'a sorter \<Rightarrow> (nat \<Rightarrow> sign) \<Rightarrow> nat \<Rightarrow> 'a list" where
  "runSorter (Done xs) rnd k = xs"
| "runSorter (Compare neg zero pos) rnd k =
     (case rnd k of
        Negative \<Rightarrow> runSorter neg rnd (Suc k)
      | Zero \<Rightarrow> runSorter zero rnd (Suc k)
      | Positive \<Rightarrow> runSorter pos rnd (Suc k))"

definition randomSort :: "('a list \<Rightarrow> 'a sorter) \<Rightarrow> (nat \<Rightarrow> sign) \<Rightarrow> 'a list \<Rightarrow> 'a list" where
  "randomSort engine rnd xs = runSorter (engine xs) rnd 0"

text \<open>The lists a sort procedure can give back.\<close>

fun outcomes :: "'a sorter \<Rightarrow> 'a list set" where
  "outcomes (Done xs) = {xs}"
| "outcomes (Compare neg zero pos) = outcomes neg \<union> outcomes zero \<union> outcomes pos"

text \<open>
  The distribution of the sign when \<^verbatim>\<open>Math.random()\<close> is uniform on the \<open>2 ^ k\<close>
  numbers \<open>j / 2 ^ k\<close> of the interval from 0 to 1: below 0.5 with probability 1/2, equal
  to 0.5 with probability \<open>1 / 2 ^ k\<close>. With it, the probability that the sort gives back
  the list \<open>ys\<close>.
\<close>

definition signProb :: "nat \<Rightarrow> sign \<Rightarrow> rat" where
  "signProb k s = (case s of Negative \<Rightarrow> 1 / 2 | Zero \<Rightarrow> 1 / 2 ^ k | Positive \<Rightarrow> 1 / 2 - 1 / 2 ^ k)"

fun outcomeProb :: "nat \<Rightarrow> 'a sorter \<Rightarrow> 'a list \<Rightarrow> rat" where
  "outcomeProb k (Done xs) ys = (if xs = ys then 1 else 0)"
| "outcomeProb k (Compare neg zero pos) ys =
     signProb k Negative * outcomeProb k neg ys
     + signProb k Zero * outcomeProb k zero ys
     + signProb k Positive * outcomeProb k pos ys"

section \<open>Notions for the statements\<close>


text \<open>
  For the statements about the winner loops: the winners of a list of (band, ticket)
  slots with ranks counted from \<open>rc\<close>; the wallet operation that credits a winner;
  what a ledger entry and a winner's credit have in common; and ticket holders that all
  have a wallet with a non-negative balance.
\<close>

fun ranked :: "int \<Rightarrow> (winnerStructure \<times> ticket) list \<Rightarrow> winner list" where
  "ranked rc [] = []"
| "ranked rc ((ws, t) # xs) = mkWinner rc ws t # ranked (rc + 1) xs"

definition entryShape :: "transaction \<Rightarrow> uid \<times> rat \<times> txType" where
  "entryShape t = (tx_user t, amount t, tx_type t)"

definition prizeCredit :: "string \<Rightarrow> winner \<Rightarrow> uid \<times> jsnum \<times> string" where
  "prizeCredit ttl w =
     (w_userId w, Num (toDouble (w_prizeAmount w)),
      ''Prize for lottery '' @ ttl @ '' (Ticket '' @ w_ticketNumber w @ '')'')"

definition creditShape :: "winner \<Rightarrow> uid \<times> rat \<times> txType" where
  "creditShape w =
     (w_userId w, toFixed2 \<bar>toDouble (w_prizeAmount w)\<bar>,
      if 0 \<le> toDouble (w_prizeAmount w) then Credit else Debit)"

definition holdersOk :: "ticket list \<Rightarrow> db \<Rightarrow> bool" where
  "holdersOk ts d =
     list_all (\<lambda>t. case users d (t_userId t) of
                     None \<Rightarrow> False
                   | Some u \<Rightarrow> role u = RUser \<and> 0 \<le> walletBalance u) ts"

text \<open>
  For the statements about the sweep: from one database to another, every lottery keeps
  its place and its id, and one whose result was announced is still announced. And
  what the three bulk updates of a tick do to a single lottery.
\<close>

definition announcedStays :: "db \<Rightarrow> db \<Rightarrow> bool" where
  "announcedStays d d' =
     list_all2 (\<lambda>l l'. l_id l' = l_id l \<and> (resultAnnounced (flags l) \<longrightarrow> resultAnnounced (flags l')))
       (lotteries d) (lotteries d')"


text \<open>A rational with a power of two as denominator.\<close>

definition dyadic :: "rat \<Rightarrow> bool" where
  "dyadic r = (\<exists>(m::int) (j::nat). r = of_int m / 2 ^ j)"

section \<open>Example states\<close>

definition emptyDb :: db where
  "emptyDb = \<lparr>users = Map.empty, transactions = [], lotteries = [], purchases = [], results = []\<rparr>"


definition fiftyDb :: db where
  "fiftyDb = emptyDb\<lparr>users := [1 \<mapsto> \<lparr>name = ''Asha'', email = ''asha@example.com'',
     role = RUser, walletBalance = 50\<rparr>]\<rparr>"

definition lotDb :: db where
  "lotDb = emptyDb\<lparr>users := [1 \<mapsto> newUser ''Asha'' ''asha@example.com''],
     lotteries := [\<lparr>l_id = 1, title = ''Hourly'', ticketPrice = 10, maxTickets = 1,
        maxTicketsPerUser = 2,
        winnerStructure = [\<lparr>fromRank = 1, toRank = 1, prizeAmount = 100\<rparr>],
        startDatetime = 0, endDatetime = 100, drawDatetime = 160, ticketsSold = 0,
        flags = \<lparr>isUpcoming = False, isActive = True, isEnded = False, resultAnnounced = False\<rparr>,
        lotteryPrefix = ''HL''\<rparr>]\<rparr>"

definition dimeDb :: db where
  "dimeDb = emptyDb\<lparr>users := [1 \<mapsto> \<lparr>name = ''Asha'', email = ''asha@example.com'',
       role = RUser, walletBalance = 3 / 10\<rparr>],
     lotteries := [\<lparr>l_id = 1, title = ''Dime'', ticketPrice = 1 / 10, maxTickets = 5,
        maxTicketsPerUser = 3,
        winnerStructure = [\<lparr>fromRank = 1, toRank = 1, prizeAmount = 1\<rparr>],
        startDatetime = 0, endDatetime = 100, drawDatetime = 160, ticketsSold = 0,
        flags = \<lparr>isUpcoming = False, isActive = True, isEnded = False, resultAnnounced = False\<rparr>,
        lotteryPrefix = ''DM''\<rparr>]\<rparr>"

definition bigDb :: db where
  "bigDb = emptyDb\<lparr>users := [1 \<mapsto> \<lparr>name = ''Asha'', email = ''asha@example.com'',
     role = RUser, walletBalance = 9007199255740995 / 100\<rparr>]\<rparr>"


definition drawDb :: db where
  "drawDb = emptyDb\<lparr>
     users := [1 \<mapsto> newUser ''Asha'' ''asha@example.com'', 2 \<mapsto> newUser ''Ben'' ''ben@example.com''],
     lotteries := [\<lparr>l_id = 1, title = ''Hourly'', ticketPrice = 10, maxTickets = 5,
        maxTicketsPerUser = 3,
        winnerStructure = [\<lparr>fromRank = 1, toRank = 1, prizeAmount = 100\<rparr>,
                           \<lparr>fromRank = 2, toRank = 3, prizeAmount = 50\<rparr>],
        startDatetime = 0, endDatetime = 100, drawDatetime = 160, ticketsSold = 5,
        flags = \<lparr>isUpcoming = False, isActive = False, isEnded = True, resultAnnounced = False\<rparr>,
        lotteryPrefix = ''HL''\<rparr>],
     purchases := [\<lparr>tp_lotteryId = 1, tp_userId = 1,
                     ticketNumbers = [''HL-0001'', ''HL-0002'', ''HL-0003''], quantity = 3,
                     perTicketPrice = 10, totalPrice = 30\<rparr>,
                   \<lparr>tp_lotteryId = 1, tp_userId = 2,
                     ticketNumbers = [''HL-0004'', ''HL-0005''], quantity = 2,
                     perTicketPrice = 10, totalPrice = 20\<rparr>]\<rparr>"


section \<open>Lemmas about JavaScript numbers\<close>

lemma roundEven_err: "\<bar>of_int (roundEven y) - y\<bar> \<le> 1 / 2"
proof -
  have "of_int \<lfloor>y\<rfloor> \<le> y" "y < of_int \<lfloor>y\<rfloor> + 1"
    by linarith+
  then show ?thesis
    by (auto simp: roundEven_def Let_def)
qed

lemma roundEven_of_int: "roundEven (of_int n) = n"
  by (simp add: roundEven_def)

lemma roundEven_minus: "roundEven (- y) = - roundEven y"
proof (cases "y = of_int \<lfloor>y\<rfloor>")
  case True
  then obtain n :: int where "y = of_int n" ..
  then have "- y = of_int (- n)" by simp
  then show ?thesis
    unfolding \<open>y = of_int n\<close> by (simp only: roundEven_of_int)
next
  case False
  have lo: "of_int \<lfloor>y\<rfloor> \<le> y" "y < of_int \<lfloor>y\<rfloor> + 1" by linarith+
  with False have "of_int \<lfloor>y\<rfloor> < y" by (auto simp: less_le)
  then have fm: "\<lfloor>- y\<rfloor> = - \<lfloor>y\<rfloor> - 1"
    using lo(2) by (intro floor_unique) simp_all
  show ?thesis
    unfolding roundEven_def Let_def fm
    using lo \<open>of_int \<lfloor>y\<rfloor> < y\<close> by (auto simp: algebra_simps)
qed

lemma floorlog2_bounds:
  assumes "0 < n"
  shows "(2::rat) ^ floorlog 2 n \<le> 2 * of_nat n" and "of_nat n < (2::rat) ^ floorlog 2 n"
proof -
  from floorlog_bounds [OF assms, of 2] have b: "2 ^ (floorlog 2 n - 1) \<le> n" "n < 2 ^ floorlog 2 n"
    by simp_all
  from b(2) assms have pos: "0 < floorlog 2 n"
    by (cases "floorlog 2 n") simp_all
  then have "(2::nat) ^ floorlog 2 n = 2 * 2 ^ (floorlog 2 n - 1)"
    by (cases "floorlog 2 n") simp_all
  with b(1) have "(2::nat) ^ floorlog 2 n \<le> 2 * n" by simp
  then have "of_nat ((2::nat) ^ floorlog 2 n) \<le> (of_nat (2 * n) :: rat)"
    by (simp only: of_nat_le_iff)
  then show "(2::rat) ^ floorlog 2 n \<le> 2 * of_nat n" by simp
  from b(2) have "(of_nat n :: rat) < of_nat (2 ^ floorlog 2 n)"
    by (simp only: of_nat_less_iff)
  then show "of_nat n < (2::rat) ^ floorlog 2 n" by simp
qed

lemma ilog2_bounds:
  assumes "x \<noteq> 0"
  shows "2 powi ilog2 x \<le> \<bar>x\<bar>" and "\<bar>x\<bar> < 2 powi (ilog2 x + 1)"
proof -
  obtain p q where pq: "quotient_of \<bar>x\<bar> = (p, q)" by (cases "quotient_of \<bar>x\<bar>")
  from quotient_of_denom_pos [OF pq] have q: "0 < q" .
  from quotient_of_div [OF pq] have x: "\<bar>x\<bar> = of_int p / of_int q" .
  from assms have "0 < \<bar>x\<bar>" by simp
  with x q have p: "0 < p"
    by (simp add: zero_less_divide_iff)
  let ?bp = "floorlog 2 (nat p)" and ?bq = "floorlog 2 (nat q)"
  let ?k = "int ?bp - int ?bq"
  have P: "(of_nat (nat p) :: rat) = of_int p" and Q: "(of_nat (nat q) :: rat) = of_int q"
    using p q by simp_all
  from floorlog2_bounds [of "nat p"] p have bp: "(2::rat) ^ ?bp \<le> 2 * of_int p" "of_int p < (2::rat) ^ ?bp"
    unfolding P by simp_all
  from floorlog2_bounds [of "nat q"] q have bq: "(2::rat) ^ ?bq \<le> 2 * of_int q" "of_int q < (2::rat) ^ ?bq"
    unfolding Q by simp_all
  have k: "(2::rat) powi ?k = 2 ^ ?bp / 2 ^ ?bq"
    by (simp add: power_int_diff)
  have qpos: "(0::rat) < of_int q" using q by simp
  have up: "\<bar>x\<bar> < 2 * 2 powi ?k"
  proof -
    have "of_int p * (2::rat) ^ ?bq < 2 ^ ?bp * (2 * of_int q)"
      using bp(2) bq(1) p q
      by (intro mult_less_le_imp_less) simp_all
    then have "of_int p / of_int q < 2 * ((2::rat) ^ ?bp / 2 ^ ?bq)"
      using qpos by (simp add: field_simps)
    then show ?thesis by (simp only: x k)
  qed
  have lo: "2 powi ?k < 2 * \<bar>x\<bar>"
  proof -
    have "(2::rat) ^ ?bp * of_int q < (2 * of_int p) * 2 ^ ?bq"
      using bp(1) bq(2) p q
      by (intro mult_le_less_imp_less) simp_all
    then have "(2::rat) ^ ?bp / 2 ^ ?bq < 2 * (of_int p / of_int q)"
      using qpos by (simp add: field_simps)
    then show ?thesis by (simp only: x k)
  qed
  have k1: "(2::rat) powi (?k + 1) = 2 * 2 powi ?k" and k2: "2 * (2::rat) powi (?k - 1) = 2 powi ?k"
    by (simp_all add: power_int_add power_int_diff)
  have il: "ilog2 x = (if 2 powi ?k \<le> \<bar>x\<bar> then ?k else ?k - 1)"
    by (simp add: ilog2_def pq Let_def)
  show "2 powi ilog2 x \<le> \<bar>x\<bar>"
  proof (cases "2 powi ?k \<le> \<bar>x\<bar>")
    case True
    then show ?thesis by (simp add: il)
  next
    case False
    from lo k2 have "2 * (2::rat) powi (?k - 1) < 2 * \<bar>x\<bar>" by simp
    then have "(2::rat) powi (?k - 1) \<le> \<bar>x\<bar>" by simp
    with False show ?thesis by (simp add: il)
  qed
  show "\<bar>x\<bar> < 2 powi (ilog2 x + 1)"
  proof (cases "2 powi ?k \<le> \<bar>x\<bar>")
    case True
    with up k1 show ?thesis by (simp add: il)
  next
    case False
    then show ?thesis by (simp add: il)
  qed
qed

lemma ilog2_unique:
  assumes "2 powi e \<le> \<bar>x\<bar>" and "\<bar>x\<bar> < 2 powi (e + 1)"
  shows "ilog2 x = e"
proof -
  have "(0::rat) < 2 powi e" by simp
  with assms(1) have "0 < \<bar>x\<bar>" by linarith
  then have nz: "x \<noteq> 0" by simp
  note b = ilog2_bounds [OF nz]
  have "(2::rat) powi e < 2 powi (ilog2 x + 1)" using assms(1) b(2) by simp
  then have "e < ilog2 x + 1"
    by (metis power_int_increasing not_le one_le_numeral leD leI)
  moreover have "(2::rat) powi ilog2 x < 2 powi (e + 1)" using assms(2) b(1) by simp
  then have "ilog2 x < e + 1"
    by (metis power_int_increasing not_le one_le_numeral leD leI)
  ultimately show ?thesis by simp
qed

lemma toDouble_zero [simp]: "toDouble 0 = 0"
  by (simp add: toDouble_def)

lemma toDouble_minus: "toDouble (- x) = - toDouble x"
proof (cases "x = 0")
  case True
  then show ?thesis by simp
next
  case False
  have "ilog2 (- x) = ilog2 x" by (simp add: ilog2_def)
  with False show ?thesis
    by (simp add: toDouble_def Let_def roundEven_minus)
qed

lemma toDouble_err: "\<bar>toDouble x - x\<bar> \<le> \<bar>x\<bar> / 2 ^ 53"
proof (cases "x = 0")
  case True
  then show ?thesis by simp
next
  case False
  let ?e = "ilog2 x - 52"
  let ?y = "x / 2 powi ?e"
  have pe: "(0::rat) < 2 powi ?e" by simp
  have td: "toDouble x = of_int (roundEven ?y) * 2 powi ?e"
    using False by (simp add: toDouble_def Let_def)
  have "toDouble x - x = (of_int (roundEven ?y) - ?y) * 2 powi ?e"
    unfolding td using pe by (simp add: algebra_simps)
  then have "\<bar>toDouble x - x\<bar> = \<bar>of_int (roundEven ?y) - ?y\<bar> * 2 powi ?e"
    using pe by (simp add: abs_mult)
  also have "\<dots> \<le> 1 / 2 * 2 powi ?e"
    using roundEven_err [of ?y] pe by (intro mult_right_mono) simp_all
  also have "\<dots> = 2 powi ilog2 x / 2 ^ 53"
    by (simp add: power_int_diff)
  also have "\<dots> \<le> \<bar>x\<bar> / 2 ^ 53"
    using ilog2_bounds(1) [OF False] by (intro divide_right_mono) simp_all
  finally show ?thesis .
qed

lemma toDouble_of_int:
  assumes "\<bar>n\<bar> < 2 ^ 53"
  shows "toDouble (of_int n) = of_int n"
proof (cases "n = 0")
  case True
  then show ?thesis by simp
next
  case False
  let ?x = "of_int n :: rat"
  let ?e = "ilog2 ?x - 52"
  from False have nz: "?x \<noteq> 0" by simp
  have "(of_int \<bar>n\<bar> :: rat) < of_int (2 ^ 53)"
    using assms by (simp only: of_int_less_iff)
  moreover have "(of_int (2 ^ 53) :: rat) = 2 powi 53"
    by (simp only: of_int_power of_int_numeral power_int_numeral)
  ultimately have ub: "\<bar>?x\<bar> < 2 powi 53"
    by (simp only: of_int_abs)
  have "2 powi ilog2 ?x \<le> \<bar>?x\<bar>" by (rule ilog2_bounds(1) [OF nz])
  from this ub have "(2::rat) powi ilog2 ?x < 2 powi 53" by (rule le_less_trans)
  then have "ilog2 ?x < 53"
    by (metis power_int_increasing not_le one_le_numeral leD leI)
  then have le: "?e \<le> 0" by simp
  define m where "m = nat (- ?e)"
  have e: "?e = - int m" using le by (simp add: m_def)
  have pw: "(2::rat) powi ?e = 1 / 2 ^ m"
    unfolding e by (simp add: power_int_minus inverse_eq_divide)
  have "?x / 2 powi ?e = of_int (n * 2 ^ m)"
    unfolding pw by simp
  then have "roundEven (?x / 2 powi ?e) = n * 2 ^ m"
    by (simp only: roundEven_of_int)
  then have "toDouble ?x = of_int (n * 2 ^ m) * 2 powi ?e"
    using nz by (simp add: toDouble_def Let_def)
  also have "\<dots> = ?x"
    unfolding pw by simp
  finally show ?thesis .
qed

lemma toDouble_pos: "0 < x \<Longrightarrow> 0 < toDouble x"
proof -
  assume x: "0 < x"
  define h where "h = x / 2 ^ 53"
  have "x / 2 ^ 53 < x / 1"
    using x by (intro divide_strict_left_mono) simp_all
  then have c: "h < x" by (simp add: h_def)
  from toDouble_err [of x] x have b: "\<bar>toDouble x - x\<bar> \<le> h"
    by (simp only: h_def abs_of_pos)
  from b c show ?thesis by linarith
qed

lemma toDouble_neg: "x < 0 \<Longrightarrow> toDouble x < 0"
  using toDouble_pos [of "- x"] by (simp add: toDouble_minus)

lemma toDouble_neg_iff: "(toDouble x < 0) = (x < 0)"
proof (cases "x < 0")
  case True
  then show ?thesis by (simp add: toDouble_neg)
next
  case False
  then have "x = 0 \<or> 0 < x" by auto
  then have "0 \<le> toDouble x"
    using toDouble_pos [of x] by auto
  with False show ?thesis by simp
qed

lemma toDouble_nonneg: "0 \<le> x \<Longrightarrow> 0 \<le> toDouble x"
  using toDouble_neg_iff [of x] by simp

lemma toDouble_eq_0_iff: "(toDouble x = 0) = (x = 0)"
  using toDouble_pos [of x] toDouble_neg [of x] by (cases "x = 0"; cases "0 < x") auto

lemma toDouble_eval:
  assumes "2 powi (e + 52) \<le> \<bar>x\<bar>" and "\<bar>x\<bar> < 2 powi (e + 53)"
    and "roundEven (x / 2 powi e) = m"
  shows "toDouble x = of_int m * 2 powi e"
proof -
  have "ilog2 x = e + 52"
    using assms(1,2) by (intro ilog2_unique) (simp_all add: add.commute add.left_commute)
  moreover have "(0::rat) < 2 powi (e + 52)" by simp
  with assms(1) have "0 < \<bar>x\<bar>" by linarith
  ultimately show ?thesis
    using assms(3) by (simp add: toDouble_def)
qed

lemma toDouble_numeral [simp]:
  "(numeral k :: int) < 9007199254740992 \<Longrightarrow> toDouble (numeral k) = numeral k"
  using toDouble_of_int [of "numeral k"] by simp

lemma toDouble_neg_numeral [simp]:
  "(numeral k :: int) < 9007199254740992 \<Longrightarrow> toDouble (- numeral k) = - numeral k"
  by (simp add: toDouble_minus)

lemma toDouble_one [simp]: "toDouble 1 = 1"
  using toDouble_of_int [of 1] by simp

section \<open>Lemmas about the wallet service\<close>

subsection \<open>Rounding to hundredths\<close>

lemma toFixed2_of_int: "toFixed2 (of_int n / 100) = of_int n / 100"
proof (cases "n < 0")
  case True
  have "\<lfloor>- (rat_of_int n / 100) * 100 + 1 / 2\<rfloor> = - n"
    by (simp add: floor_unique)
  with True show ?thesis
    by (simp add: toFixed2_def)
next
  case False
  have "\<lfloor>rat_of_int n / 100 * 100 + 1 / 2\<rfloor> = n"
    by (simp add: floor_unique)
  with False show ?thesis
    by (simp add: toFixed2_def)
qed

lemma wholeCents_iff: "wholeCents x \<longleftrightarrow> (\<exists>n::int. x = of_int n / 100)"
proof
  assume "wholeCents x"
  then have "toFixed2 x = x" by (simp add: wholeCents_def)
  then show "\<exists>n::int. x = of_int n / 100"
    unfolding toFixed2_def
    by (metis of_int_minus minus_divide_left)
next
  assume "\<exists>n::int. x = of_int n / 100"
  then obtain n :: int where "x = of_int n / 100" ..
  then show "wholeCents x"
    by (simp only: wholeCents_def toFixed2_of_int)
qed

lemma wholeCents_add: "wholeCents x \<Longrightarrow> wholeCents y \<Longrightarrow> wholeCents (x + y)"
proof -
  assume "wholeCents x" "wholeCents y"
  then obtain m n :: int where "x = of_int m / 100" "y = of_int n / 100"
    by (auto simp: wholeCents_iff)
  then have "x + y = of_int (m + n) / 100"
    by (simp add: add_divide_distrib)
  then show ?thesis
    unfolding wholeCents_iff by blast
qed

lemma wholeCents_minus: "wholeCents x \<Longrightarrow> wholeCents (- x)"
proof -
  assume "wholeCents x"
  then obtain m :: int where "x = of_int m / 100"
    by (auto simp: wholeCents_iff)
  then have "- x = of_int (- m) / 100"
    by simp
  then show ?thesis
    unfolding wholeCents_iff by blast
qed

lemma wholeCents_abs: "wholeCents x \<Longrightarrow> wholeCents \<bar>x\<bar>"
  by (cases "x < 0") (simp_all add: wholeCents_minus abs_if)

lemma toFixed2_nonneg: "0 \<le> x \<Longrightarrow> 0 \<le> toFixed2 x"
  by (simp add: toFixed2_def)

lemma toFixed2_near:
  assumes "wholeCents c" and "\<bar>y - c\<bar> < 1 / 200"
  shows "toFixed2 y = c"
proof -
  from assms(1) obtain n :: int where c: "c = of_int n / 100"
    unfolding wholeCents_iff by blast
  from assms(2) have "y - of_int n / 100 < 1 / 200" "- (1 / 200) < y - of_int n / 100"
    unfolding c by (simp_all only: abs_less_iff minus_diff_eq) linarith+
  then have b: "of_int n - 1 / 2 < y * 100" "y * 100 < of_int n + 1 / 2"
    by linarith+
  show ?thesis
  proof (cases "y < 0")
    case False
    have "\<lfloor>y * 100 + 1 / 2\<rfloor> = n"
      using b by (intro floor_unique) simp_all
    with False show ?thesis by (simp add: toFixed2_def c)
  next
    case True
    have "\<lfloor>- y * 100 + 1 / 2\<rfloor> = - n"
      using b by (intro floor_unique) simp_all
    with True show ?thesis by (simp add: toFixed2_def c)
  qed
qed


lemma wholeCents_neg_le:
  assumes "wholeCents z" and "z < 0"
  shows "z \<le> - (1 / 100)"
proof -
  from assms(1) obtain n :: int where z: "z = of_int n / 100"
    unfolding wholeCents_iff by blast
  with assms(2) have "n < 0" by simp
  then have "n \<le> - 1" by simp
  then have "(of_int n :: rat) \<le> of_int (- 1)" by (simp only: of_int_le_iff)
  then show ?thesis by (simp add: z)
qed

lemma wholeCents_pos_ge:
  assumes "wholeCents z" and "0 < z"
  shows "1 / 100 \<le> z"
proof -
  from assms(1) obtain n :: int where z: "z = of_int n / 100"
    unfolding wholeCents_iff by blast
  with assms(2) have "0 < n" by simp
  then have "1 \<le> n" by simp
  then have "(of_int 1 :: rat) \<le> of_int n" by (simp only: of_int_le_iff)
  then show ?thesis by (simp add: z)
qed

lemma wholeCents_of_int [simp]: "wholeCents (of_int n)"
proof -
  have "(of_int n :: rat) = of_int (n * 100) / 100" by simp
  then show ?thesis unfolding wholeCents_iff by blast
qed

lemma wholeCents_numeral [simp]: "wholeCents (numeral k)"
  using wholeCents_of_int [of "numeral k"] by simp

lemma toFixed2_numeral [simp]: "toFixed2 (numeral k) = numeral k"
  using wholeCents_numeral [of k] by (simp only: wholeCents_def)

lemma toFixed2_zero [simp]: "toFixed2 0 = 0"
  using wholeCents_of_int [of 0] by (simp add: wholeCents_def)

lemma toFixed2_neg_numeral [simp]: "toFixed2 (- numeral k) = - numeral k"
  using wholeCents_minus [OF wholeCents_numeral [of k]] by (simp only: wholeCents_def)

lemma wholeCents_hundredths: "wholeCents (of_int n / 100)"
  unfolding wholeCents_iff by blast

subsection \<open>Numbers of decimal amounts\<close>

lemma toDouble_close:
  assumes "\<bar>x\<bar> \<le> 2 * moneyLimit"
  shows "\<bar>toDouble x - x\<bar> < 1 / 1000"
proof -
  have "\<bar>toDouble x - x\<bar> \<le> \<bar>x\<bar> / 2 ^ 53" by (rule toDouble_err)
  also have "\<dots> \<le> (2 * moneyLimit) / 2 ^ 53"
    using assms by (intro divide_right_mono) simp_all
  also have "\<dots> < 1 / 1000"
    by (simp add: moneyLimit_def)
  finally show ?thesis .
qed

lemma cents_roundtrip:
  assumes "wholeCents c" and "\<bar>c\<bar> \<le> moneyLimit"
  shows "toFixed2 (toDouble c) = c"
proof -
  have "0 \<le> moneyLimit" by (simp add: moneyLimit_def)
  with assms(2) have "\<bar>c\<bar> \<le> 2 * moneyLimit" by linarith
  from toDouble_close [OF this] have "\<bar>toDouble c - c\<bar> < 1 / 200" by linarith
  with assms(1) show ?thesis by (rule toFixed2_near)
qed

lemma toDouble_eval_frac:
  assumes "2 ^ 52 \<le> \<bar>x\<bar> * 2 ^ n" and "\<bar>x\<bar> * 2 ^ n < 2 ^ 53"
    and "roundEven (x * 2 ^ n) = m"
  shows "toDouble x = of_int m / 2 ^ n"
proof -
  have p: "(2::rat) powi (- int n) = 1 / 2 ^ n"
    by (simp add: power_int_minus inverse_eq_divide)
  have "(2::rat) powi (- int n + 52) = 2 powi (- int n) * 2 powi 52"
    by (rule power_int_add) simp
  then have p52: "(2::rat) powi (- int n + 52) = 2 ^ 52 / 2 ^ n"
    unfolding p by simp
  have "(2::rat) powi (- int n + 53) = 2 powi (- int n) * 2 powi 53"
    by (rule power_int_add) simp
  then have p53: "(2::rat) powi (- int n + 53) = 2 ^ 53 / 2 ^ n"
    unfolding p by simp
  have a: "2 powi (- int n + 52) \<le> \<bar>x\<bar>"
    unfolding p52 using assms(1) by (simp add: divide_le_eq)
  have b: "\<bar>x\<bar> < 2 powi (- int n + 53)"
    unfolding p53 using assms(2) by (simp add: less_divide_eq)
  have c: "roundEven (x / 2 powi (- int n)) = m"
    unfolding p using assms(3) by simp
  from toDouble_eval [OF a b c] show ?thesis
    unfolding p by simp
qed

lemma toDouble_abs: "\<bar>toDouble x\<bar> = toDouble \<bar>x\<bar>"
proof (cases "x < 0")
  case True
  then have "toDouble x < 0" by (simp add: toDouble_neg)
  with True show ?thesis by (simp add: toDouble_minus)
next
  case False
  then have "0 \<le> toDouble x" by (simp add: toDouble_nonneg)
  with False show ?thesis by simp
qed

lemma toDouble_sign: "(0 \<le> toDouble x) = (0 \<le> x)"
  using toDouble_neg_iff [of x] by auto

lemma cents_abs_roundtrip:
  assumes "wholeCents c" and "\<bar>c\<bar> \<le> moneyLimit"
  shows "toFixed2 \<bar>toDouble c\<bar> = \<bar>c\<bar>"
proof -
  from assms(1) have "wholeCents \<bar>c\<bar>" by (rule wholeCents_abs)
  moreover from assms(2) have "\<bar>\<bar>c\<bar>\<bar> \<le> moneyLimit" by simp
  ultimately have "toFixed2 (toDouble \<bar>c\<bar>) = \<bar>c\<bar>" by (rule cents_roundtrip)
  then show ?thesis by (simp only: toDouble_abs)
qed

lemma moneyLimit_ge: "1 \<le> moneyLimit"
  by (simp add: moneyLimit_def)

lemma wallet_sum_close:
  assumes "\<bar>b\<bar> + \<bar>c\<bar> \<le> moneyLimit"
  shows "\<bar>toDouble b + toDouble c - (b + c)\<bar> < 2 / 1000"
proof -
  from assms moneyLimit_ge have "\<bar>b\<bar> \<le> 2 * moneyLimit" "\<bar>c\<bar> \<le> 2 * moneyLimit"
    by linarith+
  then have "\<bar>toDouble b - b\<bar> < 1 / 1000" "\<bar>toDouble c - c\<bar> < 1 / 1000"
    by (simp_all only: toDouble_close)
  then show ?thesis by linarith
qed

lemma wallet_sum_sign:
  assumes "wholeCents b" and "wholeCents c" and "\<bar>b\<bar> + \<bar>c\<bar> \<le> moneyLimit"
  shows "(toDouble b + toDouble c < 0) = (b + c < 0)"
proof -
  from assms(1,2) have w: "wholeCents (b + c)" by (rule wholeCents_add)
  from wallet_sum_close [OF assms(3)]
  have s: "\<bar>toDouble b + toDouble c - (b + c)\<bar> < 2 / 1000" .
  consider "b + c < 0" | "b + c = 0" | "0 < b + c" by linarith
  then show ?thesis
  proof cases
    case 1
    from wholeCents_neg_le [OF w 1] have "b + c \<le> - (1 / 100)" .
    with s have "toDouble b + toDouble c < 0" by linarith
    with 1 show ?thesis by simp
  next
    case 2
    then have "c = - b" by linarith
    then have "toDouble b + toDouble c = 0" by (simp add: toDouble_minus)
    with 2 show ?thesis by simp
  next
    case 3
    from wholeCents_pos_ge [OF w 3] have "1 / 100 \<le> b + c" .
    with s have "0 < toDouble b + toDouble c" by linarith
    with 3 show ?thesis by simp
  qed
qed

lemma wallet_sum_round:
  assumes "wholeCents b" and "wholeCents c" and "\<bar>b\<bar> + \<bar>c\<bar> \<le> moneyLimit"
  shows "toFixed2 (toDouble (toDouble b + toDouble c)) = b + c"
proof -
  from assms(1,2) have w: "wholeCents (b + c)" by (rule wholeCents_add)
  from wallet_sum_close [OF assms(3)]
  have s: "\<bar>toDouble b + toDouble c - (b + c)\<bar> < 2 / 1000" .
  have "\<bar>b + c\<bar> \<le> \<bar>b\<bar> + \<bar>c\<bar>" by (rule abs_triangle_ineq)
  with s assms(3) moneyLimit_ge have "\<bar>toDouble b + toDouble c\<bar> \<le> 2 * moneyLimit"
    by linarith
  from toDouble_close [OF this] s
  have "\<bar>toDouble (toDouble b + toDouble c) - (b + c)\<bar> < 1 / 200" by linarith
  with w show ?thesis by (rule toFixed2_near)
qed

text \<open>The numbers of some decimals, and of their sums and products.\<close>

lemma toDouble_tenth: "toDouble (1 / 10) = 3602879701896397 / 36028797018963968"
proof -
  have "roundEven (1 / 10 * 2 ^ 56) = 7205759403792794" by code_simp
  from toDouble_eval_frac [of "1 / 10" 56, OF _ _ this] show ?thesis by simp
qed

lemma toDouble_three_tenths: "toDouble (3 / 10) = 5404319552844595 / 18014398509481984"
proof -
  have "roundEven (3 / 10 * 2 ^ 54) = 5404319552844595" by code_simp
  from toDouble_eval_frac [of "3 / 10" 54, OF _ _ this] show ?thesis by simp
qed


lemma toDouble_fifth_below:
  "toDouble (7205759403792793 / 36028797018963968) = 7205759403792793 / 36028797018963968"
proof -
  have "roundEven (7205759403792793 / 36028797018963968 * 2 ^ 55) = 7205759403792793"
    by code_simp
  from toDouble_eval_frac [of "7205759403792793 / 36028797018963968" 55, OF _ _ this]
  show ?thesis by simp
qed

lemma toDouble_large_95: "toDouble (9007199255740995 / 100) = 5764607523674237 / 64"
proof -
  have "roundEven (9007199255740995 / 100 * 2 ^ 6) = 5764607523674237" by code_simp
  from toDouble_eval_frac [of "9007199255740995 / 100" 6, OF _ _ this] show ?thesis by simp
qed

lemma toDouble_large_96: "toDouble (9007199255740996 / 100) = 5764607523674237 / 64"
proof -
  have "roundEven (9007199255740996 / 100 * 2 ^ 6) = 5764607523674237" by code_simp
  from toDouble_eval_frac [of "9007199255740996 / 100" 6, OF _ _ this] show ?thesis by simp
qed

subsection \<open>One call of the wallet service\<close>


lemma updateWallet_success:
  assumes "updateWallet userId amt descr d = (Inr b, d')"
  shows "\<exists>a u. amt = Num a \<and> a \<noteq> 0 \<and> users d userId = Some u \<and> role u = RUser
           \<and> b = toDouble (toDouble (walletBalance u) + a) \<and> 0 \<le> b
           \<and> d' = d\<lparr>users := (users d)(userId \<mapsto> u\<lparr>walletBalance := toFixed2 b\<rparr>),
                    transactions := transactions d @
                      [\<lparr>tx_user = userId, amount = toFixed2 \<bar>a\<bar>,
                        tx_type = (if a \<ge> 0 then Credit else Debit),
                        description = descr, balanceAfter = toFixed2 b\<rparr>]\<rparr>"
  using assms
  by (auto simp: updateWallet_def Let_def split: jsnum.splits option.splits if_splits)

lemma updateWallet_ok:
  assumes "users d userId = Some u" "role u = RUser" "a \<noteq> 0"
    and "0 \<le> toDouble (walletBalance u) + a"
  shows "updateWallet userId (Num a) descr d =
           (Inr (toDouble (toDouble (walletBalance u) + a)),
            d\<lparr>users := (users d)(userId \<mapsto>
                  u\<lparr>walletBalance := toFixed2 (toDouble (toDouble (walletBalance u) + a))\<rparr>),
              transactions := transactions d @
                [\<lparr>tx_user = userId, amount = toFixed2 \<bar>a\<bar>,
                  tx_type = (if a \<ge> 0 then Credit else Debit),
                  description = descr,
                  balanceAfter = toFixed2 (toDouble (toDouble (walletBalance u) + a))\<rparr>]\<rparr>)"
  using assms by (simp add: updateWallet_def Let_def toDouble_neg_iff)

lemma updateWallet_insufficient:
  assumes "users d userId = Some u" "role u = RUser" "a \<noteq> 0"
    and "toDouble (walletBalance u) + a < 0"
  shows "updateWallet userId (Num a) descr d = (Inl InsufficientFunds, d)"
  using assms by (simp add: updateWallet_def Let_def toDouble_neg_iff)

text \<open>
  A call for the number of a decimal with two places, on a balance with two places, both
  within the bound: the rounding does not show.
\<close>

lemma updateWallet_cents:
  assumes "users d userId = Some u" "role u = RUser"
    and "wholeCents (walletBalance u)" "wholeCents c" "c \<noteq> 0"
    and "\<bar>walletBalance u\<bar> + \<bar>c\<bar> \<le> moneyLimit"
  shows "updateWallet userId (Num (toDouble c)) descr d =
           (if walletBalance u + c < 0 then (Inl InsufficientFunds, d)
            else (Inr (toDouble (toDouble (walletBalance u) + toDouble c)),
                  d\<lparr>users := (users d)(userId \<mapsto> u\<lparr>walletBalance := walletBalance u + c\<rparr>),
                    transactions := transactions d @
                      [\<lparr>tx_user = userId, amount = \<bar>c\<bar>,
                        tx_type = (if 0 \<le> c then Credit else Debit),
                        description = descr, balanceAfter = walletBalance u + c\<rparr>]\<rparr>))"
proof -
  from assms(5) have nz: "toDouble c \<noteq> 0" by (simp add: toDouble_eq_0_iff)
  have sg: "(toDouble (walletBalance u) + toDouble c < 0) = (walletBalance u + c < 0)"
    using assms(3,4,6) by (rule wallet_sum_sign)
  have rd: "toFixed2 (toDouble (toDouble (walletBalance u) + toDouble c)) = walletBalance u + c"
    using assms(3,4,6) by (rule wallet_sum_round)
  from assms(6) have "\<bar>c\<bar> \<le> moneyLimit" by linarith
  with assms(4) have am: "toFixed2 \<bar>toDouble c\<bar> = \<bar>c\<bar>" by (rule cents_abs_roundtrip)
  show ?thesis
  proof (cases "walletBalance u + c < 0")
    case True
    with sg have "toDouble (walletBalance u) + toDouble c < 0" by simp
    with assms(1,2) nz have "updateWallet userId (Num (toDouble c)) descr d = (Inl InsufficientFunds, d)"
      by (rule updateWallet_insufficient)
    with True show ?thesis by simp
  next
    case False
    with sg have "0 \<le> toDouble (walletBalance u) + toDouble c" by simp
    with assms(1,2) nz have "updateWallet userId (Num (toDouble c)) descr d =
           (Inr (toDouble (toDouble (walletBalance u) + toDouble c)),
            d\<lparr>users := (users d)(userId \<mapsto>
                  u\<lparr>walletBalance := toFixed2 (toDouble (toDouble (walletBalance u) + toDouble c))\<rparr>),
              transactions := transactions d @
                [\<lparr>tx_user = userId, amount = toFixed2 \<bar>toDouble c\<bar>,
                  tx_type = (if toDouble c \<ge> 0 then Credit else Debit),
                  description = descr,
                  balanceAfter = toFixed2 (toDouble (toDouble (walletBalance u) + toDouble c))\<rparr>]\<rparr>)"
      by (rule updateWallet_ok)
    with False show ?thesis
      by (simp only: rd am toDouble_sign if_False)
  qed
qed

subsection \<open>The balance against the ledger\<close>







section \<open>Lemmas about the purchase\<close>

lemma updateWallet_errors:
  "updateWallet i a s d = (Inl e, d') \<Longrightarrow>
     e = InvalidAmount \<or> e = UserNotFound \<or> e = OnlyUsersHaveWallets \<or> e = InsufficientFunds"
  by (auto simp: updateWallet_def Let_def split: jsnum.splits option.splits if_splits)

lemma chooseTickets_errors:
  "chooseTickets l av q c = Inl e \<Longrightarrow>
     e = QuantityMismatch \<or> e = NotEnoughTickets \<or> (\<exists>inv. e = TicketUnavailable inv)"
  by (auto simp: chooseTickets_def Let_def split: if_splits)

lemma active_phase_iff:
  "(cf_isActive (computeLotteryFlags now lottery) \<and> \<not> cf_isEnded (computeLotteryFlags now lottery))
     = (startDatetime lottery \<le> now \<and> now < endDatetime lottery \<and> ticketsSold lottery < maxTickets lottery)"
  by (auto simp: computeLotteryFlags_def Let_def)

lemma purchaseChecks_not_active:
  assumes "0 < qty" and "findLottery lotteryId d = Some lottery"
  shows "(purchaseChecks now lotteryId userId qty chosen d = Inl LotteryNotActive)
       = (\<not> (cf_isActive (computeLotteryFlags now lottery) \<and> \<not> cf_isEnded (computeLotteryFlags now lottery)))"
  using assms
  by (auto simp: purchaseChecks_def Let_def dest!: chooseTickets_errors split: sum.splits option.splits)


lemma purchase_not_active:
  "(fst (purchase now lotteryId userId qty chosen d) = Inl LotteryNotActive)
       = (purchaseChecks now lotteryId userId qty chosen d = Inl LotteryNotActive)"
  by (auto simp: purchase_def Let_def dest!: updateWallet_errors split: sum.splits prod.splits)

lemma purchase_success_checks:
  "purchase now lotteryId userId qty chosen d = (Inr ts, d') \<Longrightarrow>
     \<exists>lottery ex. purchaseChecks now lotteryId userId qty chosen d = Inr (lottery, ex, ts)"
  by (auto simp: purchase_def Let_def split: sum.splits prod.splits)

lemma purchaseChecks_success:
  "purchaseChecks now lotteryId userId qty chosen d = Inr (lottery, ex, ts) \<Longrightarrow>
     0 < qty \<and> findLottery lotteryId d = Some lottery
     \<and> cf_isActive (computeLotteryFlags now lottery) \<and> \<not> cf_isEnded (computeLotteryFlags now lottery)
     \<and> ex = find (\<lambda>p. tp_lotteryId p = l_id lottery \<and> tp_userId p = userId) (purchases d)
     \<and> (case ex of None \<Rightarrow> 0 | Some p \<Rightarrow> quantity p) + qty \<le> maxTicketsPerUser lottery
     \<and> chooseTickets lottery (availableTickets lottery d) qty chosen = Inr ts"
  by (auto simp: purchaseChecks_def Let_def split: sum.splits option.splits if_splits)

lemma ticketNum_1: "ticketNum pre 1 = pre @ ''-0001''"
proof -
  have "padStart 4 (CHR ''0'') (showInt 1) = ''0001''" by code_simp
  then show ?thesis by (simp add: ticketNum_def)
qed

lemmas purchase_eval =
  purchase_def purchaseChecks_def findLottery_def computeLotteryFlags_def
  availableTickets_def soldTickets_def chooseTickets_def startsWith_def
  updateWallet_def recordPurchase_def totalCost_def Let_def




section \<open>Lemmas about the draw\<close>

lemma ranked_append:
  "ranked rc (xs @ ys) = ranked rc xs @ ranked (rc + int (length xs)) ys"
  by (induction xs arbitrary: rc) (auto simp: add.assoc)

lemma length_ranked [simp]: "length (ranked rc xs) = length xs"
  by (induction xs arbitrary: rc) auto



lemma zip_take_left: "zip xs (take (length xs) ys) = zip xs ys"
proof (induction xs arbitrary: ys)
  case Nil
  then show ?case by simp
next
  case (Cons x xs)
  then show ?case by (cases ys) simp_all
qed


lemma walletOps_append: "walletOps (xs @ ys) d = walletOps ys (walletOps xs d)"
  by (induction xs arbitrary: d) auto

lemma prizeCredit_mkWinner:
  "prizeCredit ttl (mkWinner rc ws t)
     = (t_userId t, Num (toDouble (prizeAmount ws)),
        ''Prize for lottery '' @ ttl @ '' (Ticket '' @ ticketNumber t @ '')'')"
  by (simp add: prizeCredit_def mkWinner_def)

lemma awardGroup_spec:
  "awardGroup ttl ws sh n (wins, idx, rc, d) = Inr (wins', idx', rc', d') \<Longrightarrow>
     wins' = wins @ ranked rc (zip (replicate n ws) (drop idx sh))
     \<and> idx' = idx + min n (length sh - idx)
     \<and> rc' = rc + int (min n (length sh - idx))
     \<and> d' = walletOps (map (prizeCredit ttl) (ranked rc (zip (replicate n ws) (drop idx sh)))) d
     \<and> lotteries d' = lotteries d \<and> purchases d' = purchases d \<and> results d' = results d
     \<and> (\<exists>txs. transactions d' = transactions d @ txs
           \<and> map entryShape txs = map creditShape (ranked rc (zip (replicate n ws) (drop idx sh))))"
proof (induction n arbitrary: wins idx rc d)
  case 0
  then show ?case by simp
next
  case (Suc n)
  show ?case
  proof (cases "idx < length sh")
    case False
    with Suc.prems show ?thesis by simp
  next
    case True
    let ?t = "sh ! idx"
    let ?a = "toDouble (prizeAmount ws)"
    let ?descr = "''Prize for lottery '' @ ttl @ '' (Ticket '' @ ticketNumber ?t @ '')''"
    from Suc.prems True obtain b d1 where
      w: "updateWallet (t_userId ?t) (Num ?a) ?descr d = (Inr b, d1)"
      and rec: "awardGroup ttl ws sh n (wins @ [mkWinner rc ws ?t], Suc idx, rc + 1, d1)
                  = Inr (wins', idx', rc', d')"
      by (auto simp: Let_def split: prod.splits sum.splits)
    from updateWallet_success [OF w] obtain u where
      u: "users d (t_userId ?t) = Some u"
      and d1: "d1 = d\<lparr>users := (users d)(t_userId ?t \<mapsto> u\<lparr>walletBalance := toFixed2 b\<rparr>),
                    transactions := transactions d @
                      [\<lparr>tx_user = t_userId ?t, amount = toFixed2 \<bar>?a\<bar>,
                        tx_type = (if ?a \<ge> 0 then Credit else Debit),
                        description = ?descr, balanceAfter = toFixed2 b\<rparr>]\<rparr>"
      by auto
    from w have sn: "snd (updateWallet (t_userId ?t) (Num ?a) ?descr d) = d1" by simp
    from Suc.IH [OF rec] obtain txs where ih:
      "wins' = (wins @ [mkWinner rc ws ?t]) @ ranked (rc + 1) (zip (replicate n ws) (drop (Suc idx) sh))"
      "idx' = Suc idx + min n (length sh - Suc idx)"
      "rc' = rc + 1 + int (min n (length sh - Suc idx))"
      "lotteries d' = lotteries d1" "purchases d' = purchases d1" "results d' = results d1"
      "transactions d' = transactions d1 @ txs"
      "map entryShape txs = map creditShape (ranked (rc + 1) (zip (replicate n ws) (drop (Suc idx) sh)))"
      "d' = walletOps (map (prizeCredit ttl) (ranked (rc + 1) (zip (replicate n ws) (drop (Suc idx) sh)))) d1"
      by blast
    have dr: "drop idx sh = ?t # drop (Suc idx) sh"
      using True by (simp add: Cons_nth_drop_Suc)
    have m: "min (Suc n) (length sh - idx) = Suc (min n (length sh - Suc idx))"
      using True by auto
    have z: "ranked rc (zip (replicate (Suc n) ws) (drop idx sh))
        = mkWinner rc ws ?t # ranked (rc + 1) (zip (replicate n ws) (drop (Suc idx) sh))"
      by (simp add: dr)
    let ?e = "\<lparr>tx_user = t_userId ?t, amount = toFixed2 \<bar>?a\<bar>,
                        tx_type = (if ?a \<ge> 0 then Credit else Debit),
                        description = ?descr, balanceAfter = toFixed2 b\<rparr>"
    have "transactions d' = transactions d @ (?e # txs)"
      using ih(7) by (simp add: d1)
    moreover have "map entryShape (?e # txs)
        = map creditShape (ranked rc (zip (replicate (Suc n) ws) (drop idx sh)))"
      unfolding z using ih(8) by (simp add: entryShape_def creditShape_def mkWinner_def)
    ultimately have "\<exists>txs. transactions d' = transactions d @ txs
           \<and> map entryShape txs = map creditShape (ranked rc (zip (replicate (Suc n) ws) (drop idx sh)))"
      by blast
    moreover have "wins' = wins @ ranked rc (zip (replicate (Suc n) ws) (drop idx sh))"
      unfolding z using ih(1) by simp
    moreover have "idx' = idx + min (Suc n) (length sh - idx)"
      "rc' = rc + int (min (Suc n) (length sh - idx))"
      unfolding m using ih(2,3) by simp_all
    moreover have "lotteries d' = lotteries d" "purchases d' = purchases d" "results d' = results d"
      using ih(4,5,6) by (simp_all add: d1)
    moreover have "d' = walletOps (map (prizeCredit ttl)
        (ranked rc (zip (replicate (Suc n) ws) (drop idx sh)))) d"
      unfolding z list.map prizeCredit_mkWinner walletOps.simps sn by (rule ih(9))
    ultimately show ?thesis by blast
  qed
qed

lemma pickWinners_spec:
  "pickWinners ttl wsl sh (wins, idx, rc, d) = Inr (wins', idx', rc', d') \<Longrightarrow>
     wins' = wins @ ranked rc (zip (bandSlots wsl) (drop idx sh))
     \<and> d' = walletOps (map (prizeCredit ttl) (ranked rc (zip (bandSlots wsl) (drop idx sh)))) d
     \<and> lotteries d' = lotteries d \<and> purchases d' = purchases d \<and> results d' = results d
     \<and> (\<exists>txs. transactions d' = transactions d @ txs
           \<and> map entryShape txs = map creditShape (ranked rc (zip (bandSlots wsl) (drop idx sh))))"
proof (induction wsl arbitrary: wins idx rc d)
  case Nil
  then show ?case by (simp add: bandSlots_def)
next
  case (Cons ws rest)
  let ?g = "nat (toRank ws - fromRank ws + 1)"
  from Cons.prems obtain wins1 idx1 rc1 d1 where
    a: "awardGroup ttl ws sh ?g (wins, idx, rc, d) = Inr (wins1, idx1, rc1, d1)"
    and p: "pickWinners ttl rest sh (wins1, idx1, rc1, d1) = Inr (wins', idx', rc', d')"
    by (auto simp: Let_def split: sum.splits)
  let ?first = "zip (replicate ?g ws) (drop idx sh)"
  from awardGroup_spec [OF a] obtain txs1 where a':
    "wins1 = wins @ ranked rc ?first"
    "idx1 = idx + min ?g (length sh - idx)"
    "rc1 = rc + int (min ?g (length sh - idx))"
    "lotteries d1 = lotteries d" "purchases d1 = purchases d" "results d1 = results d"
    "transactions d1 = transactions d @ txs1"
    "map entryShape txs1 = map creditShape (ranked rc ?first)"
    "d1 = walletOps (map (prizeCredit ttl) (ranked rc ?first)) d"
    by blast
  from Cons.IH [OF p] obtain txs2 where p':
    "wins' = wins1 @ ranked rc1 (zip (bandSlots rest) (drop idx1 sh))"
    "lotteries d' = lotteries d1" "purchases d' = purchases d1" "results d' = results d1"
    "transactions d' = transactions d1 @ txs2"
    "map entryShape txs2 = map creditShape (ranked rc1 (zip (bandSlots rest) (drop idx1 sh)))"
    "d' = walletOps (map (prizeCredit ttl) (ranked rc1 (zip (bandSlots rest) (drop idx1 sh)))) d1"
    by blast
  have len: "length ?first = min ?g (length sh - idx)"
    by simp
  have dr: "drop idx1 sh = drop ?g (drop idx sh)"
    unfolding a'(2) by (cases "?g \<le> length sh - idx") (simp_all add: add.commute min_def)
  have tk: "zip (replicate ?g ws) (take ?g (drop idx sh)) = ?first"
    using zip_take_left [of "replicate ?g ws" "drop idx sh"] by simp
  have split: "zip (bandSlots (ws # rest)) (drop idx sh)
      = ?first @ zip (bandSlots rest) (drop idx1 sh)"
    unfolding dr using tk by (simp add: bandSlots_def zip_append1)
  have all: "ranked rc (zip (bandSlots (ws # rest)) (drop idx sh))
      = ranked rc ?first @ ranked rc1 (zip (bandSlots rest) (drop idx1 sh))"
    unfolding split ranked_append len a'(3) ..
  have "transactions d' = transactions d @ (txs1 @ txs2)"
    using a'(7) p'(5) by simp
  moreover have "map entryShape (txs1 @ txs2)
      = map creditShape (ranked rc (zip (bandSlots (ws # rest)) (drop idx sh)))"
    unfolding all using a'(8) p'(6) by simp
  ultimately have "\<exists>txs. transactions d' = transactions d @ txs
      \<and> map entryShape txs = map creditShape (ranked rc (zip (bandSlots (ws # rest)) (drop idx sh)))"
    by blast
  moreover have "wins' = wins @ ranked rc (zip (bandSlots (ws # rest)) (drop idx sh))"
    unfolding all using a'(1) p'(1) by simp
  moreover have "lotteries d' = lotteries d" "purchases d' = purchases d" "results d' = results d"
    using a'(4,5,6) p'(2,3,4) by simp_all
  moreover have "d' = walletOps (map (prizeCredit ttl)
      (ranked rc (zip (bandSlots (ws # rest)) (drop idx sh)))) d"
    unfolding all map_append walletOps_append a'(9) [symmetric] by (rule p'(7))
  ultimately show ?case by blast
qed

lemma holdersOk_step:
  assumes "holdersOk ts d" and "updateWallet i amt s d = (Inr b, d')"
  shows "holdersOk ts d'"
proof -
  from updateWallet_success [OF assms(2)] obtain u where
    u: "users d i = Some u" "role u = RUser" "0 \<le> b"
    and d': "users d' = (users d)(i \<mapsto> u\<lparr>walletBalance := toFixed2 b\<rparr>)"
    by auto
  have "case users d' (t_userId t) of None \<Rightarrow> False
          | Some u \<Rightarrow> role u = RUser \<and> 0 \<le> walletBalance u"
    if "case users d (t_userId t) of None \<Rightarrow> False
          | Some u \<Rightarrow> role u = RUser \<and> 0 \<le> walletBalance u" for t
    using that u toFixed2_nonneg [of b] by (simp add: d')
  with assms(1) show ?thesis
    unfolding holdersOk_def list_all_iff by blast
qed

lemma holder_credit_ok:
  assumes "holdersOk ts d" and "idx < length ts" and "0 < a"
  shows "\<exists>b d'. updateWallet (t_userId (ts ! idx)) (Num a) s d = (Inr b, d')"
proof -
  from assms(1,2) have "case users d (t_userId (ts ! idx)) of None \<Rightarrow> False
          | Some u \<Rightarrow> role u = RUser \<and> 0 \<le> walletBalance u"
    unfolding holdersOk_def list_all_length by blast
  then obtain u where u: "users d (t_userId (ts ! idx)) = Some u" "role u = RUser" "0 \<le> walletBalance u"
    by (auto split: option.splits)
  from u(3) have "0 \<le> toDouble (walletBalance u)" by (rule toDouble_nonneg)
  with assms(3) u(1,2) show ?thesis
    using updateWallet_ok [of d "t_userId (ts ! idx)" u a s] by simp
qed

lemma awardGroup_ok:
  assumes "0 < prizeAmount ws"
  shows "holdersOk sh d \<Longrightarrow>
     \<exists>wins' idx' rc' d'. awardGroup ttl ws sh n (wins, idx, rc, d) = Inr (wins', idx', rc', d')
        \<and> holdersOk sh d'"
proof (induction n arbitrary: wins idx rc d)
  case 0
  then show ?case by simp
next
  case (Suc n)
  show ?case
  proof (cases "idx < length sh")
    case False
    with Suc.prems show ?thesis by simp
  next
    case True
    let ?s = "''Prize for lottery '' @ ttl @ '' (Ticket '' @ ticketNumber (sh ! idx) @ '')''"
    from assms have "0 < toDouble (prizeAmount ws)" by (rule toDouble_pos)
    from holder_credit_ok [OF Suc.prems True this] obtain b d1 where
      w: "updateWallet (t_userId (sh ! idx)) (Num (toDouble (prizeAmount ws))) ?s d = (Inr b, d1)"
      by blast
    from holdersOk_step [OF Suc.prems w] have "holdersOk sh d1" .
    from Suc.IH [OF this] show ?thesis
      using True w by (simp add: Let_def)
  qed
qed

lemma pickWinners_ok:
  "holdersOk sh d \<Longrightarrow> list_all (\<lambda>b. 0 < prizeAmount b) wsl \<Longrightarrow>
     \<exists>wins' idx' rc' d'. pickWinners ttl wsl sh (wins, idx, rc, d) = Inr (wins', idx', rc', d')
        \<and> holdersOk sh d'"
proof (induction wsl arbitrary: wins idx rc d)
  case Nil
  then show ?case by simp
next
  case (Cons ws rest)
  from Cons.prems(2) have pos: "0 < prizeAmount ws" and rest: "list_all (\<lambda>b. 0 < prizeAmount b) rest"
    by simp_all
  from awardGroup_ok [OF pos Cons.prems(1)] obtain wins1 idx1 rc1 d1 where
    a: "awardGroup ttl ws sh (nat (toRank ws - fromRank ws + 1)) (wins, idx, rc, d)
          = Inr (wins1, idx1, rc1, d1)" and h: "holdersOk sh d1"
    by blast
  from Cons.IH [OF h rest] show ?case
    using a by (simp add: Let_def)
qed

lemma find_updateOne:
  "find P xs = Some x \<Longrightarrow> P (f x) \<Longrightarrow> find P (updateOne P f xs) = Some (f x)"
  by (induction xs) (auto split: if_splits)

lemma find_Some_P: "find P xs = Some x \<Longrightarrow> P x"
  by (induction xs) (auto split: if_splits)

lemma drawLottery_success:
  assumes "drawLottery lotteryId force now shuffle d = (Inr ws, d')"
  shows "\<exists>lottery allTickets idx rc d1.
           findLottery lotteryId d = Some lottery \<and> \<not> resultAnnounced (flags lottery)
         \<and> expandPurchases (users d) (filter (\<lambda>p. tp_lotteryId p = lotteryId) (purchases d)) = Inr allTickets
         \<and> allTickets \<noteq> []
         \<and> pickWinners (title lottery) (winnerStructure lottery) (shuffle allTickets) ([], 0, 1, d)
              = Inr (ws, idx, rc, d1)
         \<and> d' = d1\<lparr>results := results d1 @ [\<lparr>r_lotteryId = lotteryId, r_winners = map saveWinner ws\<rparr>],
                   lotteries := updateOne (\<lambda>l. l_id l = l_id lottery)
                      (\<lambda>l. lottery\<lparr>flags := (flags lottery)\<lparr>resultAnnounced := True\<rparr>\<rparr>) (lotteries d1)\<rparr>"
  using assms
  by (auto simp: drawLottery_def Let_def split: option.splits if_splits sum.splits prod.splits)


lemma drawLottery_ok:
  assumes "findLottery lotteryId d = Some lottery" and "\<not> resultAnnounced (flags lottery)"
    and "force \<or> (drawDatetime lottery \<le> now
           \<and> (endDatetime lottery \<le> now \<or> (isEnded (flags lottery) \<and> maxTickets lottery \<le> ticketsSold lottery)))"
    and "expandPurchases (users d) (filter (\<lambda>p. tp_lotteryId p = lotteryId) (purchases d)) = Inr allTickets"
    and "allTickets \<noteq> []"
    and "holdersOk (shuffle allTickets) d"
    and "list_all (\<lambda>b. 0 < prizeAmount b) (winnerStructure lottery)"
  shows "\<exists>ws d'. drawLottery lotteryId force now shuffle d = (Inr ws, d')"
proof -
  from pickWinners_ok [OF assms(6,7)] obtain wins' idx' rc' d1 where
    "pickWinners (title lottery) (winnerStructure lottery) (shuffle allTickets) ([], 0, 1, d)
       = Inr (wins', idx', rc', d1)"
    by blast
  with assms(1-5) show ?thesis
    by (auto simp: drawLottery_def Let_def)
qed








lemma drawLottery_announced:
  assumes "findLottery lotteryId d = Some lottery" and "resultAnnounced (flags lottery)"
  shows "drawLottery lotteryId force now shuffle d = (Inl ResultAlreadyAnnounced, d)"
  using assms by (simp add: drawLottery_def)

lemma drawLottery_sets_flag:
  assumes "drawLottery lotteryId force now shuffle d = (Inr ws, d')"
  shows "\<exists>lottery. findLottery lotteryId d' = Some lottery \<and> resultAnnounced (flags lottery)"
proof -
  from drawLottery_success [OF assms] obtain lottery allTickets idx rc d1 where
    l: "findLottery lotteryId d = Some lottery"
    and p: "pickWinners (title lottery) (winnerStructure lottery) (shuffle allTickets) ([], 0, 1, d)
              = Inr (ws, idx, rc, d1)"
    and d': "d' = d1\<lparr>results := results d1 @ [\<lparr>r_lotteryId = lotteryId, r_winners = map saveWinner ws\<rparr>],
                   lotteries := updateOne (\<lambda>l. l_id l = l_id lottery)
                      (\<lambda>l. lottery\<lparr>flags := (flags lottery)\<lparr>resultAnnounced := True\<rparr>\<rparr>) (lotteries d1)\<rparr>"
    by blast
  from pickWinners_spec [OF p] have ls: "lotteries d1 = lotteries d" by blast
  from l have f: "find (\<lambda>l. l_id l = lotteryId) (lotteries d) = Some lottery"
    by (simp add: findLottery_def)
  from find_Some_P [OF f] have i: "l_id lottery = lotteryId" .
  have "find (\<lambda>l. l_id l = lotteryId) (updateOne (\<lambda>l. l_id l = lotteryId)
          (\<lambda>l. lottery\<lparr>flags := (flags lottery)\<lparr>resultAnnounced := True\<rparr>\<rparr>) (lotteries d))
        = Some (lottery\<lparr>flags := (flags lottery)\<lparr>resultAnnounced := True\<rparr>\<rparr>)"
    using find_updateOne [OF f, of "\<lambda>l. lottery\<lparr>flags := (flags lottery)\<lparr>resultAnnounced := True\<rparr>\<rparr>"] i
    by simp
  then show ?thesis
    by (simp add: d' ls i findLottery_def)
qed


lemma showInt_small: "showInt 1 = ''1''" "showInt 2 = ''2''" "showInt 3 = ''3''"
  by code_simp+


lemma drawDb_lottery:
  "findLottery 1 drawDb = Some \<lparr>l_id = 1, title = ''Hourly'', ticketPrice = 10, maxTickets = 5,
        maxTicketsPerUser = 3,
        winnerStructure = [\<lparr>fromRank = 1, toRank = 1, prizeAmount = 100\<rparr>,
                           \<lparr>fromRank = 2, toRank = 3, prizeAmount = 50\<rparr>],
        startDatetime = 0, endDatetime = 100, drawDatetime = 160, ticketsSold = 5,
        flags = \<lparr>isUpcoming = False, isActive = False, isEnded = True, resultAnnounced = False\<rparr>,
        lotteryPrefix = ''HL''\<rparr>"
  by (simp add: findLottery_def drawDb_def emptyDb_def)

lemma drawDb_tickets:
  "expandPurchases (users drawDb) (filter (\<lambda>p. tp_lotteryId p = 1) (purchases drawDb))
     = Inr [\<lparr>ticketNumber = ''HL-0001'', t_userId = 1, t_name = ''Asha'', t_email = ''asha@example.com''\<rparr>,
            \<lparr>ticketNumber = ''HL-0002'', t_userId = 1, t_name = ''Asha'', t_email = ''asha@example.com''\<rparr>,
            \<lparr>ticketNumber = ''HL-0003'', t_userId = 1, t_name = ''Asha'', t_email = ''asha@example.com''\<rparr>,
            \<lparr>ticketNumber = ''HL-0004'', t_userId = 2, t_name = ''Ben'', t_email = ''ben@example.com''\<rparr>,
            \<lparr>ticketNumber = ''HL-0005'', t_userId = 2, t_name = ''Ben'', t_email = ''ben@example.com''\<rparr>]"
  by (simp add: drawDb_def emptyDb_def newUser_def)

section \<open>Lemmas about the sweep\<close>


lemma announcedStays_same: "lotteries d' = lotteries d \<Longrightarrow> announcedStays d d'"
  by (simp add: announcedStays_def list_all2_same)



































section \<open>Lemmas about the shuffle\<close>

lemma dyadic_0: "dyadic 0" and dyadic_1: "dyadic 1"
  unfolding dyadic_def
  by (rule exI [of _ 0], simp) (rule exI [of _ 1], rule exI [of _ 0], simp)

lemma dyadic_add:
  assumes "dyadic a" and "dyadic b"
  shows "dyadic (a + b)"
proof -
  from assms obtain m n :: int and i j :: nat where
    a: "a = of_int m / 2 ^ i" and b: "b = of_int n / 2 ^ j"
    unfolding dyadic_def by blast
  have "a = of_int (m * 2 ^ j) / 2 ^ (i + j)"
    unfolding a by (simp add: power_add)
  moreover have "b = of_int (n * 2 ^ i) / 2 ^ (i + j)"
    unfolding b by (simp add: power_add)
  ultimately have "a + b = of_int (m * 2 ^ j + n * 2 ^ i) / 2 ^ (i + j)"
    by (simp only: of_int_add add_divide_distrib)
  then show ?thesis
    unfolding dyadic_def by blast
qed

lemma dyadic_mult:
  assumes "dyadic a" and "dyadic b"
  shows "dyadic (a * b)"
proof -
  from assms obtain m n :: int and i j :: nat where
    a: "a = of_int m / 2 ^ i" and b: "b = of_int n / 2 ^ j"
    unfolding dyadic_def by blast
  have "a * b = of_int (m * n) / 2 ^ (i + j)"
    by (simp add: a b power_add)
  then show ?thesis
    unfolding dyadic_def by blast
qed

lemma dyadic_signProb: "dyadic (signProb k s)"
proof -
  have h: "dyadic (1 / 2)"
    unfolding dyadic_def by (rule exI [of _ 1], rule exI [of _ 1]) simp
  have z: "dyadic (1 / 2 ^ k)"
    unfolding dyadic_def by (rule exI [of _ 1], rule exI [of _ k]) simp
  have "dyadic (- 1 / 2 ^ k)"
    unfolding dyadic_def by (rule exI [of _ "- 1"], rule exI [of _ k]) simp
  with h have "dyadic (1 / 2 + - 1 / 2 ^ k)" by (rule dyadic_add)
  then have "dyadic (1 / 2 - 1 / 2 ^ k)" by simp
  with h z show ?thesis
    by (cases s) (simp_all add: signProb_def)
qed

lemma dyadic_outcomeProb: "dyadic (outcomeProb k t ys)"
  by (induction t) (simp_all add: dyadic_0 dyadic_1 dyadic_add dyadic_mult dyadic_signProb)

lemma three_not_dvd_power: "\<not> (3::int) dvd 2 ^ j"
proof (induction j)
  case 0
  then show ?case by simp
next
  case (Suc j)
  have step: "(3::int) dvd 2 * x \<Longrightarrow> 3 dvd x" for x by presburger
  show ?case
  proof
    assume "(3::int) dvd 2 ^ Suc j"
    then have "(3::int) dvd 2 * 2 ^ j" by simp
    then have "(3::int) dvd 2 ^ j" by (rule step)
    with Suc show False by blast
  qed
qed

lemma dyadic_not_inverse_fact:
  assumes "dyadic r"
  shows "r \<noteq> 1 / of_nat (fact (Suc (Suc (Suc n))))"
proof
  let ?N = "fact (Suc (Suc (Suc n))) :: nat"
  assume r: "r = 1 / of_nat ?N"
  from assms obtain m :: int and j :: nat where m: "r = of_int m / 2 ^ j"
    unfolding dyadic_def by blast
  have pos: "(of_nat ?N :: rat) \<noteq> 0"
    by (simp only: of_nat_eq_0_iff fact_nonzero not_False_eq_True)
  have "(of_int m :: rat) / 2 ^ j = 1 / of_nat ?N"
    unfolding m [symmetric] by (rule r)
  then have "(of_int m :: rat) * of_nat ?N = 1 * 2 ^ j"
    using pos by (subst (asm) frac_eq_eq) simp_all
  then have "(of_int (m * int ?N) :: rat) = of_int (2 ^ j)"
    by simp
  then have eq: "m * int ?N = (2::int) ^ j"
    by (simp only: of_int_eq_iff)
  have "(3::nat) dvd ?N"
    by (rule dvd_fact) simp_all
  then have "(3::int) dvd int ?N"
    by presburger
  then have "(3::int) dvd m * int ?N"
    by (rule dvd_mult)
  with eq have "(3::int) dvd 2 ^ j"
    by simp
  with three_not_dvd_power show False by blast
qed

lemma finite_outcomes: "finite (outcomes t)"
  by (induction t) simp_all

lemma runSorter_outcomes: "runSorter t rnd n \<in> outcomes t"
  by (induction t arbitrary: n) (auto split: sign.splits)

lemma outcomeProb_outside: "ys \<notin> outcomes t \<Longrightarrow> outcomeProb k t ys = 0"
  by (induction t) auto

lemma signProb_total: "signProb k Negative + signProb k Zero + signProb k Positive = 1"
  by (simp add: signProb_def)

lemma outcomeProb_sum:
  assumes "finite S" and "outcomes t \<subseteq> S"
  shows "(\<Sum>ys \<in> S. outcomeProb k t ys) = 1"
  using assms(2)
proof (induction t)
  case (Done xs)
  then have "xs \<in> S" by simp
  have "(\<Sum>ys \<in> S. outcomeProb k (Done xs) ys) = (\<Sum>ys \<in> S. if ys = xs then 1 else 0)"
    by (intro sum.cong) auto
  also have "\<dots> = 1"
    using assms(1) \<open>xs \<in> S\<close> by simp
  finally show ?case .
next
  case (Compare neg zero pos)
  then have "(\<Sum>ys \<in> S. outcomeProb k neg ys) = 1" "(\<Sum>ys \<in> S. outcomeProb k zero ys) = 1"
    "(\<Sum>ys \<in> S. outcomeProb k pos ys) = 1"
    by simp_all
  then have "(\<Sum>ys \<in> S. outcomeProb k (Compare neg zero pos) ys)
      = signProb k Negative + signProb k Zero + signProb k Positive"
    by (simp add: sum.distrib sum_distrib_left [symmetric])
  then show ?case
    by (simp only: signProb_total)
qed

lemma outcome_never_inverse_fact:
  "outcomeProb k (engine (t1 # t2 # t3 # ts)) ys
     \<noteq> 1 / of_nat (fact (length (t1 # t2 # t3 # ts)))"
  using dyadic_not_inverse_fact [OF dyadic_outcomeProb, of k "engine (t1 # t2 # t3 # ts)" ys "length ts"]
  by simp

section \<open>Claims about the wallet ledger\<close>

text \<open>
  C4, as the code has it. \<open>updateWallet\<close> reads the stored balance into a number
  and adds the amount to it as numbers, so it compares the rounded sum with 0 and not
  balance - amount. The stored balance 90071992557409.95 and the number of the literal
  90071992557409.96 are the same double, 90071992557409.953125: balance - amount is
  negative, for the literal and for the number it denotes, yet the debit is accepted
  and leaves the balance 0.
\<close>

theorem walletDebit_insufficient_funds_counterexample:
  "walletBalance (the (users bigDb 1)) - 9007199255740996 / 100 < 0
   \<and> walletBalance (the (users bigDb 1)) - toDouble (9007199255740996 / 100) < 0
   \<and> fst (walletDebit 1 (toDouble (9007199255740996 / 100)) ''Purchase'' bigDb) = Inr 0
   \<and> walletBalance (the (users (snd (walletDebit 1 (toDouble (9007199255740996 / 100))
         ''Purchase'' bigDb)) 1)) = 0"
proof -
  let ?u = "\<lparr>name = ''Asha'', email = ''asha@example.com'', role = RUser,
             walletBalance = 9007199255740995 / 100\<rparr>"
  have u: "users bigDb 1 = Some ?u" "role ?u = RUser"
    by (simp_all add: bigDb_def emptyDb_def)
  have nz: "- (5764607523674237 / 64) \<noteq> (0::rat)" by simp
  have "toDouble (walletBalance ?u) = 5764607523674237 / 64"
    by (simp only: user.select_convs toDouble_large_95)
  then have z: "toDouble (walletBalance ?u) + - (5764607523674237 / 64) = 0"
    by simp
  then have "0 \<le> toDouble (walletBalance ?u) + - (5764607523674237 / 64)" by simp
  from updateWallet_ok [OF u nz this, of "''Purchase''"]
  have "fst (walletDebit 1 (5764607523674237 / 64) ''Purchase'' bigDb) = Inr 0
    \<and> walletBalance (the (users (snd (walletDebit 1 (5764607523674237 / 64) ''Purchase'' bigDb)) 1)) = 0"
    unfolding walletDebit_def z by simp
  then show ?thesis
    unfolding toDouble_large_96 by (simp add: bigDb_def emptyDb_def)
qed

text \<open>
  C4, amended. For an account that has a wallet, a balance and an amount that are
  decimals with two places and lie within the bound \<open>moneyLimit\<close>, the debit of the
  number of a positive amount fails with \<open>InsufficientFunds\<close> exactly when
  balance - amount is negative; the failure returns the database unchanged, so the
  balance is as before and no ledger entry is created. On success the stored balance
  is decreased by the amount and exactly one ledger entry, a debit of that amount, is
  appended; the balance returned is the unrounded number.
\<close>

theorem walletDebit_insufficient_funds:
  assumes "users d userId = Some u" and "role u = RUser"
    and "wholeCents (walletBalance u)" and "wholeCents c" and "0 < c"
    and "\<bar>walletBalance u\<bar> + c \<le> moneyLimit"
  shows "(fst (walletDebit userId (toDouble c) descr d) = Inl InsufficientFunds)
           = (walletBalance u - c < 0)
     \<and> (walletBalance u - c < 0 \<longrightarrow>
          walletDebit userId (toDouble c) descr d = (Inl InsufficientFunds, d))
     \<and> (\<not> walletBalance u - c < 0 \<longrightarrow>
          walletDebit userId (toDouble c) descr d =
            (Inr (toDouble (toDouble (walletBalance u) - toDouble c)),
             d\<lparr>users := (users d)(userId \<mapsto> u\<lparr>walletBalance := walletBalance u - c\<rparr>),
               transactions := transactions d @
                 [\<lparr>tx_user = userId, amount = c, tx_type = Debit, description = descr,
                   balanceAfter = walletBalance u - c\<rparr>]\<rparr>))"
proof -
  from assms(4) have w: "wholeCents (- c)" by (rule wholeCents_minus)
  from assms(5) have nz: "- c \<noteq> 0" by simp
  from assms(5,6) have bd: "\<bar>walletBalance u\<bar> + \<bar>- c\<bar> \<le> moneyLimit" by simp
  have eq: "walletDebit userId (toDouble c) descr d = updateWallet userId (Num (toDouble (- c))) descr d"
    by (simp add: walletDebit_def toDouble_minus)
  note step = updateWallet_cents [OF assms(1,2,3) w nz bd, of descr]
  show ?thesis
  proof (cases "walletBalance u - c < 0")
    case True
    with step have "walletDebit userId (toDouble c) descr d = (Inl InsufficientFunds, d)"
      unfolding eq by simp
    with True show ?thesis by simp
  next
    case False
    with step assms(5) have "walletDebit userId (toDouble c) descr d =
            (Inr (toDouble (toDouble (walletBalance u) - toDouble c)),
             d\<lparr>users := (users d)(userId \<mapsto> u\<lparr>walletBalance := walletBalance u - c\<rparr>),
               transactions := transactions d @
                 [\<lparr>tx_user = userId, amount = c, tx_type = Debit, description = descr,
                   balanceAfter = walletBalance u - c\<rparr>]\<rparr>)"
      unfolding eq by (simp add: toDouble_minus)
    with False show ?thesis by simp
  qed
qed

theorem walletDebit_insufficient_funds_witness:
  "walletDebit 1 (toDouble 100) ''Purchase'' fiftyDb = (Inl InsufficientFunds, fiftyDb)
   \<and> walletBalance (the (users fiftyDb 1)) = 50
   \<and> transactions fiftyDb = []
   \<and> fst (walletDebit 1 (toDouble 30) ''Purchase'' fiftyDb) = Inr 20
   \<and> map amount (transactions (snd (walletDebit 1 (toDouble 30) ''Purchase'' fiftyDb))) = [30]
   \<and> walletBalance (the (users (snd (walletDebit 1 (toDouble 30) ''Purchase'' fiftyDb)) 1)) = 20
   \<and> fst (walletDebit 1 (toDouble (1 / 10)) ''Purchase'' dimeDb)
        = Inr (7205759403792793 / 36028797018963968)
   \<and> map amount (transactions (snd (walletDebit 1 (toDouble (1 / 10)) ''Purchase'' dimeDb)))
        = [1 / 10]
   \<and> walletBalance (the (users (snd (walletDebit 1 (toDouble (1 / 10)) ''Purchase'' dimeDb)) 1))
        = 1 / 5"
proof -
  let ?u = "\<lparr>name = ''Asha'', email = ''asha@example.com'', role = RUser, walletBalance = 50\<rparr>"
  let ?v = "\<lparr>name = ''Asha'', email = ''asha@example.com'', role = RUser, walletBalance = 3 / 10\<rparr>"
  have u: "users fiftyDb 1 = Some ?u" "role ?u = RUser" "wholeCents (walletBalance ?u)"
    by (simp_all add: fiftyDb_def emptyDb_def)
  have v: "users dimeDb 1 = Some ?v" "role ?v = RUser"
    by (simp_all add: dimeDb_def emptyDb_def)
  have wv: "wholeCents (walletBalance ?v)" "wholeCents (1 / 10)"
    using wholeCents_hundredths [of 30] wholeCents_hundredths [of 10] by simp_all
  have a: "walletDebit 1 (toDouble 100) ''Purchase'' fiftyDb = (Inl InsufficientFunds, fiftyDb)"
    using walletDebit_insufficient_funds [OF u, of 100 "''Purchase''"]
    by (simp add: moneyLimit_def)
  have b: "walletDebit 1 (toDouble 30) ''Purchase'' fiftyDb =
      (Inr 20, fiftyDb\<lparr>users := (users fiftyDb)(1 \<mapsto> ?u\<lparr>walletBalance := 20\<rparr>),
         transactions := transactions fiftyDb @
           [\<lparr>tx_user = 1, amount = 30, tx_type = Debit, description = ''Purchase'',
             balanceAfter = 20\<rparr>]\<rparr>)"
    using walletDebit_insufficient_funds [OF u, of 30 "''Purchase''"]
    by (simp add: moneyLimit_def)
  have x: "toDouble (toDouble (3 / 10) - toDouble (1 / 10)) = 7205759403792793 / 36028797018963968"
    by (simp add: toDouble_three_tenths toDouble_tenth toDouble_fifth_below)
  have c: "walletDebit 1 (toDouble (1 / 10)) ''Purchase'' dimeDb =
      (Inr (7205759403792793 / 36028797018963968),
       dimeDb\<lparr>users := (users dimeDb)(1 \<mapsto> ?v\<lparr>walletBalance := 1 / 5\<rparr>),
         transactions := transactions dimeDb @
           [\<lparr>tx_user = 1, amount = 1 / 10, tx_type = Debit, description = ''Purchase'',
             balanceAfter = 1 / 5\<rparr>]\<rparr>)"
    using walletDebit_insufficient_funds [OF v wv, of "''Purchase''"] x
    by (simp add: moneyLimit_def)
  have t: "transactions fiftyDb = []" "transactions dimeDb = []"
    by (simp_all add: fiftyDb_def dimeDb_def emptyDb_def)
  show ?thesis
    using u(1) t unfolding a b c by simp
qed

text \<open>
  C10. Debit and credit are the one operation \<open>updateWallet\<close>, the direction being
  the sign of the amount. A call with amount 0 or \<open>NaN\<close> fails with \<open>InvalidAmount\<close>
  whatever the database holds (the account is not looked at), and returns the database
  unchanged; a call that succeeds had a non-zero amount and appended one entry, a credit
  for a positive amount and a debit for a negative one.
\<close>

theorem updateWallet_invalid_amount:
  "updateWallet userId (Num 0) descr d = (Inl InvalidAmount, d)
   \<and> updateWallet userId NaN descr d = (Inl InvalidAmount, d)
   \<and> walletDebit userId 0 descr d = (Inl InvalidAmount, d)
   \<and> walletCredit userId 0 descr d = (Inl InvalidAmount, d)
   \<and> walletDebit userId a descr d = updateWallet userId (Num (- a)) descr d
   \<and> walletCredit userId a descr d = updateWallet userId (Num a) descr d
   \<and> (\<forall>b d'. updateWallet userId (Num a) descr d = (Inr b, d') \<longrightarrow>
         a \<noteq> 0 \<and> (\<exists>e. transactions d' = transactions d @ [e]
           \<and> tx_type e = (if 0 < a then Credit else Debit) \<and> amount e = toFixed2 \<bar>a\<bar>))"
proof -
  have "a \<noteq> 0 \<and> (\<exists>e. transactions d' = transactions d @ [e]
           \<and> tx_type e = (if 0 < a then Credit else Debit) \<and> amount e = toFixed2 \<bar>a\<bar>)"
    if "updateWallet userId (Num a) descr d = (Inr b, d')" for b d'
    using updateWallet_success [OF that] by auto
  then show ?thesis
    by (simp add: walletDebit_def walletCredit_def updateWallet_def)
qed

theorem updateWallet_invalid_amount_witness:
  "updateWallet 7 (Num 0) ''x'' fiftyDb = (Inl InvalidAmount, fiftyDb)
   \<and> users fiftyDb 7 = None
   \<and> updateWallet 1 NaN ''x'' fiftyDb = (Inl InvalidAmount, fiftyDb)
   \<and> fst (updateWallet 1 (Num (- 20)) ''x'' fiftyDb) = Inr 30
   \<and> (\<exists>e. transactions (snd (updateWallet 1 (Num (- 20)) ''x'' fiftyDb)) = transactions fiftyDb @ [e]
         \<and> tx_type e = Debit \<and> amount e = 20)"
proof -
  obtain d' where ok: "updateWallet 1 (Num (- 20)) ''x'' fiftyDb = (Inr 30, d')"
    by (simp add: updateWallet_def fiftyDb_def emptyDb_def)
  from updateWallet_invalid_amount [of 1 "''x''" fiftyDb "- 20"] ok
  have "\<exists>e. transactions d' = transactions fiftyDb @ [e] \<and> tx_type e = Debit \<and> amount e = 20"
    by simp
  moreover have "users fiftyDb 7 = None"
    by (simp add: fiftyDb_def emptyDb_def)
  moreover have "updateWallet 7 (Num 0) ''x'' fiftyDb = (Inl InvalidAmount, fiftyDb)"
    using updateWallet_invalid_amount [of 7 "''x''" fiftyDb 1] by blast
  moreover have "updateWallet 1 NaN ''x'' fiftyDb = (Inl InvalidAmount, fiftyDb)"
    using updateWallet_invalid_amount [of 1 "''x''" fiftyDb 1] by blast
  ultimately show ?thesis
    using ok by simp
qed




section \<open>Claims about the purchase\<close>

text \<open>
  C9. The flags computed from the clock say "active and not ended", which is what the
  purchase route asks of them, exactly when startAt \<le> now < endAt and
  ticketsSold < maxTickets. For a positive quantity and an existing lottery, the purchase
  is rejected as not active exactly when that fails (sold out and past the end time
  included), and a purchase that is accepted was made in that phase.
\<close>

theorem purchase_only_when_active:
  assumes "0 < qty" and "findLottery lotteryId d = Some lottery"
  shows "((cf_isActive (computeLotteryFlags now lottery) \<and> \<not> cf_isEnded (computeLotteryFlags now lottery))
           = (startDatetime lottery \<le> now \<and> now < endDatetime lottery
               \<and> ticketsSold lottery < maxTickets lottery))
     \<and> ((fst (purchase now lotteryId userId qty chosen d) = Inl LotteryNotActive)
           = (\<not> (startDatetime lottery \<le> now \<and> now < endDatetime lottery
               \<and> ticketsSold lottery < maxTickets lottery)))
     \<and> (\<forall>ts d'. purchase now lotteryId userId qty chosen d = (Inr ts, d') \<longrightarrow>
           startDatetime lottery \<le> now \<and> now < endDatetime lottery
             \<and> ticketsSold lottery < maxTickets lottery)"
proof -
  have "startDatetime lottery \<le> now \<and> now < endDatetime lottery
             \<and> ticketsSold lottery < maxTickets lottery"
    if "purchase now lotteryId userId qty chosen d = (Inr ts, d')" for ts d'
  proof -
    from purchase_success_checks [OF that] obtain l ex where
      "purchaseChecks now lotteryId userId qty chosen d = Inr (l, ex, ts)" by blast
    from purchaseChecks_success [OF this] assms(2) show ?thesis
      using active_phase_iff [of now lottery] by auto
  qed
  then show ?thesis
    using purchase_not_active [of now lotteryId userId qty chosen d]
      purchaseChecks_not_active [OF assms, of now userId chosen] active_phase_iff [of now lottery]
    by blast
qed

theorem purchase_only_when_active_witness:
  "fst (purchase 50 1 1 1 [] lotDb) = Inr [''HL-0001'']
   \<and> fst (purchase 100 1 1 1 [] lotDb) = Inl LotteryNotActive
   \<and> fst (purchase (- 1) 1 1 1 [] lotDb) = Inl LotteryNotActive
   \<and> fst (purchase 50 1 1 1 [] (snd (purchase 50 1 1 1 [] lotDb))) = Inl LotteryNotActive"
proof -
  let ?l = "\<lparr>l_id = 1, title = ''Hourly'', ticketPrice = 10, maxTickets = 1,
        maxTicketsPerUser = 2,
        winnerStructure = [\<lparr>fromRank = 1, toRank = 1, prizeAmount = 100\<rparr>],
        startDatetime = 0, endDatetime = 100, drawDatetime = 160, ticketsSold = 0,
        flags = \<lparr>isUpcoming = False, isActive = True, isEnded = False, resultAnnounced = False\<rparr>,
        lotteryPrefix = ''HL''\<rparr>"
  have f: "findLottery 1 lotDb = Some ?l"
    by (simp add: findLottery_def lotDb_def emptyDb_def)
  have "fst (purchase 100 1 1 1 [] lotDb) = Inl LotteryNotActive"
    using purchase_only_when_active [OF _ f, of 1 100 1 "[]"] by simp
  moreover have "fst (purchase (- 1) 1 1 1 [] lotDb) = Inl LotteryNotActive"
    using purchase_only_when_active [OF _ f, of 1 "- 1" 1 "[]"] by simp
  moreover have ok: "fst (purchase 50 1 1 1 [] lotDb) = Inr [''HL-0001'']"
    by (simp add: purchase_eval lotDb_def emptyDb_def newUser_def ticketNum_1)
  moreover have f2: "findLottery 1 (snd (purchase 50 1 1 1 [] lotDb)) = Some (?l\<lparr>ticketsSold := 1\<rparr>)"
    by (simp add: purchase_eval lotDb_def emptyDb_def newUser_def ticketNum_1)
  have "fst (purchase 50 1 1 1 [] (snd (purchase 50 1 1 1 [] lotDb))) = Inl LotteryNotActive"
    using purchase_only_when_active [OF _ f2, of 1 50 1 "[]"] by simp
  ultimately show ?thesis
    by blast
qed



text \<open>
  C3, evaluated where the code breaks it. A lottery of one ticket, a buyer allowed two:
  the request for quantity 2 with the chosen tickets HL-0001 and HL-0001 passes every
  check (each chosen ticket is available, and there are as many as the quantity), so
  the purchase record holds the number HL-0001 twice and ticketsSold is 2 with
  maxTickets 1.
\<close>

theorem purchase_duplicate_chosen_tickets:
  "fst (purchase 50 1 1 2 [''HL-0001'', ''HL-0001''] lotDb) = Inr [''HL-0001'', ''HL-0001'']
   \<and> map ticketsSold (lotteries (snd (purchase 50 1 1 2 [''HL-0001'', ''HL-0001''] lotDb))) = [2]
   \<and> map maxTickets (lotteries (snd (purchase 50 1 1 2 [''HL-0001'', ''HL-0001''] lotDb))) = [1]
   \<and> map ticketNumbers (purchases (snd (purchase 50 1 1 2 [''HL-0001'', ''HL-0001''] lotDb)))
       = [[''HL-0001'', ''HL-0001'']]"
  by (simp add: purchase_eval lotDb_def emptyDb_def newUser_def ticketNum_1)

section \<open>Claims about the draw\<close>

text \<open>
  C6. A draw of a lottery whose result is already announced fails with
  \<open>ResultAlreadyAnnounced\<close> and returns the database unchanged, forced or not. So after
  a draw that succeeded, every further draw of the lottery fails in that way (no new
  ledger entry, no new result document), whatever the force flag, the clock and the
  shuffle; and the cron's draw call for such a lottery leaves the database as it is.
\<close>

theorem drawLottery_idempotent:
  "(\<forall>lottery. findLottery lotteryId d = Some lottery \<and> resultAnnounced (flags lottery) \<longrightarrow>
       drawLottery lotteryId force now shuffle d = (Inl ResultAlreadyAnnounced, d))
   \<and> (\<forall>ws d'. drawLottery lotteryId force now shuffle d = (Inr ws, d') \<longrightarrow>
         drawLottery lotteryId force' now' shuffle' d' = (Inl ResultAlreadyAnnounced, d'))
   \<and> (\<forall>l lottery. l_id l = lotteryId \<and> ticketsSold l \<noteq> 0 \<and> findLottery lotteryId d = Some lottery
          \<and> resultAnnounced (flags lottery) \<longrightarrow> autoDraw now shuffle l d = d)"
proof -
  have "drawLottery lotteryId force' now' shuffle' d' = (Inl ResultAlreadyAnnounced, d')"
    if "drawLottery lotteryId force now shuffle d = (Inr ws, d')" for ws d'
    using drawLottery_sets_flag [OF that] drawLottery_announced by blast
  moreover have "autoDraw now shuffle l d = d"
    if "l_id l = lotteryId" "ticketsSold l \<noteq> 0" "findLottery lotteryId d = Some lottery"
      "resultAnnounced (flags lottery)" for l lottery
    using that drawLottery_announced [OF that(3,4), of False now shuffle]
    by (simp add: autoDraw_def)
  ultimately show ?thesis
    using drawLottery_announced by blast
qed

theorem drawLottery_idempotent_witness:
  "\<exists>ws d'. drawLottery 1 False 200 rev drawDb = (Inr ws, d')
     \<and> drawLottery 1 True 300 id d' = (Inl ResultAlreadyAnnounced, d')
     \<and> drawLottery 1 False 300 id d' = (Inl ResultAlreadyAnnounced, d')"
proof -
  let ?T = "[\<lparr>ticketNumber = ''HL-0001'', t_userId = 1, t_name = ''Asha'', t_email = ''asha@example.com''\<rparr>,
            \<lparr>ticketNumber = ''HL-0002'', t_userId = 1, t_name = ''Asha'', t_email = ''asha@example.com''\<rparr>,
            \<lparr>ticketNumber = ''HL-0003'', t_userId = 1, t_name = ''Asha'', t_email = ''asha@example.com''\<rparr>,
            \<lparr>ticketNumber = ''HL-0004'', t_userId = 2, t_name = ''Ben'', t_email = ''ben@example.com''\<rparr>,
            \<lparr>ticketNumber = ''HL-0005'', t_userId = 2, t_name = ''Ben'', t_email = ''ben@example.com''\<rparr>]"
  have h: "holdersOk (rev ?T) drawDb"
    by (simp add: holdersOk_def drawDb_def emptyDb_def newUser_def)
  have "\<exists>ws d'. drawLottery 1 False 200 rev drawDb = (Inr ws, d')"
    using drawLottery_ok [of 1 drawDb _ False 200 ?T rev] drawDb_lottery drawDb_tickets h
    by simp
  then obtain ws d' where eq: "drawLottery 1 False 200 rev drawDb = (Inr ws, d')"
    by blast
  from drawLottery_idempotent [of 1 drawDb False 200 rev True 300 id] eq
  have "drawLottery 1 True 300 id d' = (Inl ResultAlreadyAnnounced, d')"
    by blast
  moreover from drawLottery_idempotent [of 1 drawDb False 200 rev False 300 id] eq
  have "drawLottery 1 False 300 id d' = (Inl ResultAlreadyAnnounced, d')"
    by blast
  ultimately show ?thesis
    using eq by blast
qed



section \<open>Claims about the lifecycle\<close>



section \<open>Claims about the shuffle\<close>

text \<open>
  C1, evaluated where the code breaks it: three sold tickets. Whatever comparison
  procedure the engine's sort runs and however many random bits \<^verbatim>\<open>Math.random()\<close>
  has, the six orders of three different tickets are not equally likely outcomes of the
  shuffle: if the sort gives back nothing but orders of the three tickets, their
  probabilities add up to 1, so equal ones would each be 1/6, while every outcome's
  probability is a sum of products of probabilities of comparator signs, a rational
  whose denominator is a power of two. (The same holds for any number n of tickets from
  three on, 3 dividing n!.)
\<close>

theorem shuffle_not_uniform:
  "\<not> (distinct [t1, t2, t3]
       \<and> outcomes (engine [t1, t2, t3])
            \<subseteq> {[t1, t2, t3], [t1, t3, t2], [t2, t1, t3], [t2, t3, t1], [t3, t1, t2], [t3, t2, t1]}
       \<and> outcomeProb k (engine [t1, t2, t3]) [t1, t3, t2] = outcomeProb k (engine [t1, t2, t3]) [t1, t2, t3]
       \<and> outcomeProb k (engine [t1, t2, t3]) [t2, t1, t3] = outcomeProb k (engine [t1, t2, t3]) [t1, t2, t3]
       \<and> outcomeProb k (engine [t1, t2, t3]) [t2, t3, t1] = outcomeProb k (engine [t1, t2, t3]) [t1, t2, t3]
       \<and> outcomeProb k (engine [t1, t2, t3]) [t3, t1, t2] = outcomeProb k (engine [t1, t2, t3]) [t1, t2, t3]
       \<and> outcomeProb k (engine [t1, t2, t3]) [t3, t2, t1] = outcomeProb k (engine [t1, t2, t3]) [t1, t2, t3])"
proof
  let ?t = "engine [t1, t2, t3]"
  let ?S = "{[t1, t2, t3], [t1, t3, t2], [t2, t1, t3], [t2, t3, t1], [t3, t1, t2], [t3, t2, t1]}"
  let ?p = "outcomeProb k ?t [t1, t2, t3]"
  assume a: "distinct [t1, t2, t3]
       \<and> outcomes ?t \<subseteq> ?S
       \<and> outcomeProb k ?t [t1, t3, t2] = ?p
       \<and> outcomeProb k ?t [t2, t1, t3] = ?p
       \<and> outcomeProb k ?t [t2, t3, t1] = ?p
       \<and> outcomeProb k ?t [t3, t1, t2] = ?p
       \<and> outcomeProb k ?t [t3, t2, t1] = ?p"
  then have sub: "outcomes ?t \<subseteq> ?S" by blast
  have "(\<Sum>ys \<in> ?S. outcomeProb k ?t ys) = 1"
    by (rule outcomeProb_sum [OF _ sub]) simp
  moreover from a have "(\<Sum>ys \<in> ?S. outcomeProb k ?t ys) = 6 * ?p"
    by auto
  ultimately have "?p = 1 / 6" by simp
  moreover have "?p \<noteq> 1 / 6"
    using dyadic_not_inverse_fact [OF dyadic_outcomeProb, of k ?t "[t1, t2, t3]" 0]
    by (simp add: fact_numeral eval_nat_numeral)
  ultimately show False by blast
qed

end
